theory Spec2Isabelle
  imports Complex_Main
begin

section \<open>Dense vectors and matrices\<close>

text \<open>
  The planner works on NumPy arrays of floats. A vector is a list of reals, a matrix a
  list of rows. Floating-point rounding is not modelled: every arithmetic operation is
  the exact operation on reals.
\<close>

type_synonym vec = "real list"
type_synonym matrix = "real list list"

definition zeros :: "nat \<Rightarrow> nat \<Rightarrow> matrix" where
  "zeros n m = replicate n (replicate m 0)"

definition ones :: "nat \<Rightarrow> nat \<Rightarrow> matrix" where
  "ones n m = replicate n (replicate m 1)"

text \<open>\<open>np.tril\<close>: the entries above the main diagonal are replaced by zero.\<close>

definition tril :: "matrix \<Rightarrow> matrix" where
  "tril A = map (\<lambda>k. map (\<lambda>i. if i \<le> k then A ! k ! i else 0) [0..<length (A ! k)])
              [0..<length A]"

definition mat_scale :: "matrix \<Rightarrow> real \<Rightarrow> matrix" where
  "mat_scale A c = map (map (\<lambda>v. v * c)) A"

text \<open>Item assignment \<open>A[k, i] = v\<close>; the loops below only write inside the array.\<close>

definition mat_set :: "matrix \<Rightarrow> nat \<Rightarrow> nat \<Rightarrow> real \<Rightarrow> matrix" where
  "mat_set A k i v = A[k := (A ! k)[i := v]]"

definition dot :: "vec \<Rightarrow> vec \<Rightarrow> real" where
  "dot xs ys = sum_list (map2 (*) xs ys)"

text \<open>The product \<open>A @ x\<close> of a matrix and a vector.\<close>

definition matvec :: "matrix \<Rightarrow> vec \<Rightarrow> vec" where
  "matvec A x = map (\<lambda>row. dot row x) A"

section \<open>Discrete dynamics kernels (model.py)\<close>

text \<open>\<open>_build_A_acc\<close>: \<open>np.tril(np.ones((num_steps, num_steps))) * dt\<close>.\<close>

definition build_A_acc :: "nat \<Rightarrow> real \<Rightarrow> matrix" where
  "build_A_acc num_steps dt = mat_scale (tril (ones num_steps num_steps)) dt"

text \<open>
  \<open>_build_A_vel_from_jerk\<close>: a zero matrix, then for every \<open>k\<close> in \<open>range(num_steps)\<close> and
  every \<open>i\<close> in \<open>range(k + 1)\<close> the assignment \<open>A_v[k, i] = (k - i + 0.5) * dt ** 2\<close>.
\<close>

definition build_A_vel_from_jerk :: "nat \<Rightarrow> real \<Rightarrow> matrix" where
  "build_A_vel_from_jerk num_steps dt =
     fold (\<lambda>k A. fold (\<lambda>i A. mat_set A k i ((real k - real i + 0.5) * dt ^ 2)) [0..<k + 1] A)
       [0..<num_steps] (zeros num_steps num_steps)"

text \<open>
  \<open>_build_A_pos_from_jerk\<close>: for every input index \<open>i\<close> the impulse response is simulated
  from \<open>dp, dv, da = 0, 0, 0\<close>; the body of the inner loop is \<open>impulse_step\<close>, which also
  stores \<open>dp\<close> in \<open>A_p[k, i]\<close>.
\<close>

definition impulse_step ::
  "real \<Rightarrow> nat \<Rightarrow> nat \<Rightarrow> (real \<times> real \<times> real) \<times> matrix \<Rightarrow> (real \<times> real \<times> real) \<times> matrix" where
  "impulse_step dt i k st =
     (case st of ((dp, dv, da), A_p) \<Rightarrow>
        let j_val = (if k = i then 1 else 0);
            term_p = dp + dv * dt + 0.5 * da * dt ^ 2 + (1 / 6) * j_val * dt ^ 3;
            term_v = dv + da * dt + 0.5 * j_val * dt ^ 2;
            term_a = da + j_val * dt
        in ((term_p, term_v, term_a), mat_set A_p k i term_p))"

definition build_A_pos_from_jerk :: "nat \<Rightarrow> real \<Rightarrow> matrix" where
  "build_A_pos_from_jerk num_steps dt =
     fold (\<lambda>i A_p. snd (fold (impulse_step dt i) [0..<num_steps] ((0, 0, 0), A_p)))
       [0..<num_steps] (zeros num_steps num_steps)"

text \<open>
  The discrete update the kernels are derived from, as the comments of the three builders
  give it: \<open>p_{k+1} = p_k + v_k dt + 0.5 a_k dt^2 + (1/6) j_k dt^3\<close>,
  \<open>v_{k+1} = v_k + a_k dt + 0.5 j_k dt^2\<close> and \<open>a_{k+1} = a_k + j_k dt\<close>.
  \<open>rollout\<close> lists the states after each step of a jerk sequence.
\<close>

definition jerk_update :: "real \<Rightarrow> real \<times> real \<times> real \<Rightarrow> real \<Rightarrow> real \<times> real \<times> real" where
  "jerk_update dt st j =
     (case st of (p, v, a) \<Rightarrow>
        (p + v * dt + 0.5 * a * dt ^ 2 + (1 / 6) * j * dt ^ 3,
         v + a * dt + 0.5 * j * dt ^ 2,
         a + j * dt))"

fun rollout :: "real \<Rightarrow> real \<times> real \<times> real \<Rightarrow> real list \<Rightarrow> (real \<times> real \<times> real) list" where
  "rollout dt st [] = []"
| "rollout dt st (j # js) = jerk_update dt st j # rollout dt (jerk_update dt st j) js"

text \<open>
  The free response and the progress trajectory of \<open>generate_mpcc\<close>:
  \<open>t_vec = np.arange(1, num_steps + 1) * dt\<close>, \<open>t2_vec = 0.5 * t_vec ** 2\<close>,
  \<open>px_free = px0 + vx0 * t_vec + ax0 * t2_vec\<close>, \<open>S_mat = np.tril(np.ones(...)) * dt\<close>
  and \<open>s_traj = s0 + S_mat @ vs\<close>.
\<close>

definition t_vec :: "nat \<Rightarrow> real \<Rightarrow> vec" where
  "t_vec num_steps dt = map (\<lambda>n. real n * dt) [1..<num_steps + 1]"

definition t2_vec :: "nat \<Rightarrow> real \<Rightarrow> vec" where
  "t2_vec num_steps dt = map (\<lambda>t. 0.5 * t ^ 2) (t_vec num_steps dt)"

definition p_free :: "nat \<Rightarrow> real \<Rightarrow> real \<Rightarrow> real \<Rightarrow> real \<Rightarrow> vec" where
  "p_free num_steps dt p0 v0 a0 =
     map2 (\<lambda>t t2. p0 + v0 * t + a0 * t2) (t_vec num_steps dt) (t2_vec num_steps dt)"

definition v_free :: "nat \<Rightarrow> real \<Rightarrow> real \<Rightarrow> real \<Rightarrow> vec" where
  "v_free num_steps dt v0 a0 = map (\<lambda>t. v0 + a0 * t) (t_vec num_steps dt)"

definition vec_add :: "vec \<Rightarrow> vec \<Rightarrow> vec" where
  "vec_add xs ys = map2 (+) xs ys"

definition S_mat :: "nat \<Rightarrow> real \<Rightarrow> matrix" where
  "S_mat num_steps dt = mat_scale (tril (ones num_steps num_steps)) dt"

definition s_traj :: "nat \<Rightarrow> real \<Rightarrow> real \<Rightarrow> vec \<Rightarrow> vec" where
  "s_traj num_steps dt s0 vs = map (\<lambda>x. s0 + x) (matvec (S_mat num_steps dt) vs)"

text \<open>
  Auxiliary notions for the kernels: a square matrix of a given size; a loop pass that
  overwrites a selection of entries with values depending on the position only; the
  response of the position to a unit jerk impulse, \<open>d\<close> steps after the impulse.
\<close>

definition square :: "nat \<Rightarrow> matrix \<Rightarrow> bool" where
  "square n A \<longleftrightarrow> length A = n \<and> (\<forall>k<n. length (A ! k) = n)"

definition writes :: "nat \<Rightarrow> (nat \<Rightarrow> nat \<Rightarrow> bool) \<Rightarrow> (nat \<Rightarrow> nat \<Rightarrow> real) \<Rightarrow> matrix \<Rightarrow> matrix \<Rightarrow> bool" where
  "writes n sel f A B \<longleftrightarrow> square n B \<and>
     (\<forall>k<n. \<forall>i<n. B ! k ! i = (if sel k i then f k i else A ! k ! i))"

definition kernel_pos :: "real \<Rightarrow> nat \<Rightarrow> real" where
  "kernel_pos dt d = dt ^ 3 * (1 / 6 + real d / 2 + (real d) ^ 2 / 2)"

definition impulse_state :: "real \<Rightarrow> nat \<Rightarrow> nat \<Rightarrow> real \<times> real \<times> real" where
  "impulse_state dt i m =
     (if m \<le> i then (0, 0, 0)
      else (kernel_pos dt (m - 1 - i), dt ^ 2 * (real (m - 1 - i) + 1 / 2), dt))"

section \<open>Entries of the kernels\<close>

lemma tril_ones_entry:
  assumes "k < n" "i < n"
  shows "mat_scale (tril (ones n n)) c ! k ! i = (if i \<le> k then c else 0)"
  using assms by (simp add: mat_scale_def tril_def ones_def)

lemma tril_ones_dims:
  "length (mat_scale (tril (ones n n)) c) = n"
  "k < n \<Longrightarrow> length (mat_scale (tril (ones n n)) c ! k) = n"
  by (simp_all add: mat_scale_def tril_def ones_def)



lemma square_zeros: "square n (zeros n n)"
  by (simp add: square_def zeros_def)

lemma square_mat_set: "square n A \<Longrightarrow> square n (mat_set A k i v)"
  by (cases "k < length A") (auto simp: square_def mat_set_def nth_list_update)

lemma mat_set_entry:
  "square n A \<Longrightarrow> k < n \<Longrightarrow> i < n \<Longrightarrow> k' < n \<Longrightarrow> i' < n \<Longrightarrow>
   mat_set A k i v ! k' ! i' = (if k' = k \<and> i' = i then v else A ! k' ! i')"
  by (auto simp: square_def mat_set_def nth_list_update)



lemma writes_fold:
  assumes step: "\<And>x A. x < n \<Longrightarrow> square n A \<Longrightarrow> writes n (sel x) f A (g x A)"
    and A: "square n A" and m: "m \<le> n"
  shows "writes n (\<lambda>k i. \<exists>x<m. sel x k i) f A (fold g [0..<m] A)"
  using m
proof (induction m)
  case 0
  then show ?case using A by (simp add: writes_def)
next
  case (Suc m)
  then have IH: "writes n (\<lambda>k i. \<exists>x<m. sel x k i) f A (fold g [0..<m] A)" by simp
  then have sq: "square n (fold g [0..<m] A)" by (simp add: writes_def)
  from Suc.prems have "m < n" by simp
  from step[OF this sq] have S: "writes n (sel m) f (fold g [0..<m] A) (g m (fold g [0..<m] A))" .
  show ?case using IH S by (auto simp: writes_def less_Suc_eq)
qed

lemma vel_row:
  assumes "square n A" "k < n"
  shows "writes n (\<lambda>k' i'. k' = k \<and> i' \<le> k) f A (fold (\<lambda>i A. mat_set A k i (f k i)) [0..<k + 1] A)"
proof -
  have "writes n (\<lambda>k' i'. \<exists>x<k + 1. k' = k \<and> i' = x) f A (fold (\<lambda>i A. mat_set A k i (f k i)) [0..<k + 1] A)"
  proof (rule writes_fold)
    fix x B assume "x < n" "square n B"
    then show "writes n (\<lambda>k' i'. k' = k \<and> i' = x) f B (mat_set B k x (f k x))"
      using assms(2) by (auto simp: writes_def square_mat_set mat_set_entry)
  qed (use assms in auto)
  moreover have "(\<lambda>k' i'. \<exists>x<k + 1. k' = k \<and> i' = x) = (\<lambda>k' i'. k' = k \<and> i' \<le> k)"
    by (auto simp: fun_eq_iff)
  ultimately show ?thesis by simp
qed

lemma A_vel_writes:
  "writes n (\<lambda>k i. \<exists>x<n. k = x \<and> i \<le> x) (\<lambda>k i. (real k - real i + 0.5) * dt ^ 2)
     (zeros n n) (build_A_vel_from_jerk n dt)"
  unfolding build_A_vel_from_jerk_def
proof (rule writes_fold)
  fix x A assume x: "x < n" and A: "square n A"
  show "writes n (\<lambda>k i. k = x \<and> i \<le> x) (\<lambda>k i. (real k - real i + 0.5) * dt ^ 2) A
     (fold (\<lambda>i A. mat_set A x i ((real x - real i + 0.5) * dt ^ 2)) [0..<x + 1] A)"
    by (rule vel_row[OF A x, where f = "\<lambda>k i. (real k - real i + 0.5) * dt ^ 2"])
qed (rule square_zeros, rule order_refl)

lemma A_vel_entry:
  assumes "k < n" "i < n"
  shows "build_A_vel_from_jerk n dt ! k ! i = (if i \<le> k then (real k - real i + 0.5) * dt ^ 2 else 0)"
  using A_vel_writes[of n dt] assms by (auto simp: writes_def zeros_def)



lemma impulse_state_Suc:
  "impulse_state dt i (Suc m) =
     (case impulse_state dt i m of (dp, dv, da) \<Rightarrow>
        (dp + dv * dt + 0.5 * da * dt ^ 2 + (1 / 6) * (if m = i then 1 else 0) * dt ^ 3,
         dv + da * dt + 0.5 * (if m = i then 1 else 0) * dt ^ 2,
         da + (if m = i then 1 else 0) * dt))"
proof -
  consider "m < i" | "m = i" | "i < m" by linarith
  then show ?thesis
  proof cases
    case 1
    then show ?thesis by (simp add: impulse_state_def)
  next
    case 2
    then show ?thesis by (simp add: impulse_state_def kernel_pos_def power3_eq_cube power2_eq_square)
  next
    case 3
    then obtain d where d: "m = Suc (i + d)" using less_iff_Suc_add by auto
    show ?thesis unfolding d
      by (simp add: impulse_state_def kernel_pos_def power3_eq_cube power2_eq_square field_simps)
  qed
qed

lemma pos_column:
  assumes A: "square n A" and i: "i < n" and m: "m \<le> n"
  shows "fst (fold (impulse_step dt i) [0..<m] ((0, 0, 0), A)) = impulse_state dt i m \<and>
         writes n (\<lambda>k' i'. i' = i \<and> k' < m) (\<lambda>k i. fst (impulse_state dt i (Suc k))) A
           (snd (fold (impulse_step dt i) [0..<m] ((0, 0, 0), A)))"
  using m
proof (induction m)
  case 0
  then show ?case using A by (simp add: impulse_state_def writes_def)
next
  case (Suc m)
  obtain st B where f: "fold (impulse_step dt i) [0..<m] ((0, 0, 0), A) = (st, B)"
    by (cases "fold (impulse_step dt i) [0..<m] ((0, 0, 0), A)")
  from Suc f have st: "st = impulse_state dt i m"
    and B: "writes n (\<lambda>k' i'. i' = i \<and> k' < m) (\<lambda>k i. fst (impulse_state dt i (Suc k))) A B"
    and mn: "m < n" by auto
  obtain dp dv da where s: "impulse_state dt i m = (dp, dv, da)" by (cases "impulse_state dt i m")
  have sq: "square n B" using B by (simp add: writes_def)
  have step: "fold (impulse_step dt i) [0..<Suc m] ((0, 0, 0), A) =
      (impulse_state dt i (Suc m), mat_set B m i (fst (impulse_state dt i (Suc m))))"
    by (simp add: f st s impulse_step_def Let_def impulse_state_Suc)
  have "writes n (\<lambda>k' i'. i' = i \<and> k' < Suc m) (\<lambda>k i. fst (impulse_state dt i (Suc k))) A
      (mat_set B m i (fst (impulse_state dt i (Suc m))))"
    using B mn i sq unfolding writes_def
    by (auto simp: square_mat_set mat_set_entry less_Suc_eq)
  then show ?case by (simp only: step fst_conv snd_conv)
qed

lemma A_pos_writes:
  "writes n (\<lambda>k i. \<exists>x<n. i = x \<and> k < n) (\<lambda>k i. fst (impulse_state dt i (Suc k)))
     (zeros n n) (build_A_pos_from_jerk n dt)"
  unfolding build_A_pos_from_jerk_def
proof (rule writes_fold)
  fix x A assume x: "x < n" and A: "square n A"
  show "writes n (\<lambda>k i. i = x \<and> k < n) (\<lambda>k i. fst (impulse_state dt i (Suc k))) A
     (snd (fold (impulse_step dt x) [0..<n] ((0, 0, 0), A)))"
    using pos_column[OF A x order_refl] by simp
qed (rule square_zeros, rule order_refl)

lemma A_pos_entry:
  assumes "k < n" "i < n"
  shows "build_A_pos_from_jerk n dt ! k ! i = (if i \<le> k then kernel_pos dt (k - i) else 0)"
  using A_pos_writes[of n dt] assms by (auto simp: writes_def impulse_state_def)

lemma dot_sum:
  assumes "length xs = length ys"
  shows "dot xs ys = (\<Sum>i<length xs. xs ! i * ys ! i)"
proof -
  have "dot xs ys = (\<Sum>i = 0..<length (map2 (*) xs ys). map2 (*) xs ys ! i)"
    unfolding dot_def by (rule sum_list_sum_nth)
  also have "\<dots> = (\<Sum>i = 0..<length xs. xs ! i * ys ! i)"
    using assms by (intro sum.cong) auto
  finally show ?thesis by (simp add: atLeast0LessThan)
qed

lemma lower_row_sum:
  fixes c :: "nat \<Rightarrow> real"
  assumes "k < n"
  shows "(\<Sum>i<n. (if i \<le> k then c i else 0) * y i) = (\<Sum>i\<le>k. c i * y i)"
proof -
  have "(\<Sum>i<n. (if i \<le> k then c i else 0) * y i) = (\<Sum>i\<in>{..<n}. if i \<in> {..k} then c i * y i else 0)"
    by (intro sum.cong) auto
  also have "\<dots> = (\<Sum>i\<in>{..<n} \<inter> {..k}. c i * y i)"
    by (simp add: sum.inter_restrict)
  also have "{..<n} \<inter> {..k} = {..k}" using assms by auto
  finally show ?thesis .
qed

lemma rollout_length: "length (rollout dt st js) = length js"
  by (induction js arbitrary: st) auto

lemma rollout_pos:
  "k < length js \<Longrightarrow>
   fst (rollout dt (p0, v0, a0) js ! k) =
     p0 + v0 * (real (k + 1) * dt) + a0 * (0.5 * (real (k + 1) * dt) ^ 2)
       + (\<Sum>i\<le>k. kernel_pos dt (k - i) * js ! i)"
proof (induction js arbitrary: p0 v0 a0 k)
  case Nil
  then show ?case by simp
next
  case (Cons j js)
  show ?case
  proof (cases k)
    case 0
    then show ?thesis by (simp add: jerk_update_def kernel_pos_def)
  next
    case (Suc k')
    with Cons.prems have k': "k' < length js" by simp
    have shift: "(\<Sum>i\<le>Suc k'. kernel_pos dt (Suc k' - i) * (j # js) ! i) =
        kernel_pos dt (Suc k') * j + (\<Sum>i\<le>k'. kernel_pos dt (k' - i) * js ! i)"
      by (subst sum.atMost_Suc_shift) simp
    show ?thesis
      unfolding Suc shift
      by (simp add: jerk_update_def Cons.IH[OF k'] kernel_pos_def power2_eq_square power3_eq_cube
          field_simps)
  qed
qed

lemma t_vec_nth: "k < n \<Longrightarrow> t_vec n dt ! k = real (k + 1) * dt"
  by (simp add: t_vec_def nth_map_upt del: upt_Suc)

lemma t_vec_length: "length (t_vec n dt) = n"
  by (simp add: t_vec_def del: upt_Suc)

lemma p_free_nth:
  "k < n \<Longrightarrow> p_free n dt p0 v0 a0 ! k =
     p0 + v0 * (real (k + 1) * dt) + a0 * (0.5 * (real (k + 1) * dt) ^ 2)"
  by (simp add: p_free_def t2_vec_def t_vec_nth t_vec_length)

lemma A_pos_dims:
  "length (build_A_pos_from_jerk n dt) = n"
  "k < n \<Longrightarrow> length (build_A_pos_from_jerk n dt ! k) = n"
  using A_pos_writes[of n dt] by (auto simp: writes_def square_def)

lemma A_pos_row_dot:
  assumes "k < n" "length js = n"
  shows "dot (build_A_pos_from_jerk n dt ! k) js = (\<Sum>i\<le>k. kernel_pos dt (k - i) * js ! i)"
proof -
  have "dot (build_A_pos_from_jerk n dt ! k) js =
      (\<Sum>i<n. build_A_pos_from_jerk n dt ! k ! i * js ! i)"
    using assms by (simp add: dot_sum A_pos_dims)
  also have "\<dots> = (\<Sum>i<n. (if i \<le> k then kernel_pos dt (k - i) else 0) * js ! i)"
    using assms by (intro sum.cong) (auto simp: A_pos_entry)
  also have "\<dots> = (\<Sum>i\<le>k. kernel_pos dt (k - i) * js ! i)"
    using assms(1) by (rule lower_row_sum)
  finally show ?thesis .
qed

lemma position_superposition:
  assumes "k < n" "length js = n"
  shows "vec_add (p_free n dt p0 v0 a0) (matvec (build_A_pos_from_jerk n dt) js) ! k =
         fst (rollout dt (p0, v0, a0) js ! k)"
proof -
  have "vec_add (p_free n dt p0 v0 a0) (matvec (build_A_pos_from_jerk n dt) js) ! k =
      p_free n dt p0 v0 a0 ! k + dot (build_A_pos_from_jerk n dt ! k) js"
    using assms by (simp add: vec_add_def matvec_def A_pos_dims p_free_def t_vec_length t2_vec_def)
  then show ?thesis
    using assms by (simp only: p_free_nth A_pos_row_dot rollout_pos)
qed

lemma s_traj_nth:
  assumes "k < n" "length vs = n"
  shows "s_traj n dt s0 vs ! k = s0 + dt * (\<Sum>i\<le>k. vs ! i)"
proof -
  have "dot (S_mat n dt ! k) vs = (\<Sum>i<n. (if i \<le> k then dt else 0) * vs ! i)"
    using assms unfolding S_mat_def
    by (simp add: dot_sum tril_ones_dims tril_ones_entry)
  also have "\<dots> = (\<Sum>i\<le>k. dt * vs ! i)" using assms(1) by (rule lower_row_sum)
  finally show ?thesis using assms
    by (simp add: s_traj_def matvec_def S_mat_def tril_ones_dims sum_distrib_left)
qed

lemma A_acc_entry:
  assumes "k < n" "i < n"
  shows "build_A_acc n dt ! k ! i = (if i \<le> k then dt else 0)"
  using assms unfolding build_A_acc_def by (rule tril_ones_entry)

text \<open>
  Claim C7. For every horizon \<open>num_steps\<close> and step \<open>dt\<close>, at every row \<open>k\<close> and column
  \<open>i\<close> inside the matrices: the jerk-to-acceleration matrix is \<open>dt\<close> on and below the diagonal
  and zero above it; the jerk-to-velocity matrix is \<open>(k - i + 0.5) * dt^2\<close> on and below the
  diagonal and zero above it; for every jerk sequence of the horizon's length and every
  initial position, velocity and acceleration, the positions \<open>px_free + A_pos @ jx\<close> that the
  planner computes with the impulse-response matrix are the positions obtained by iterating
  the discrete update \<open>p_{k+1} = p_k + v_k dt + 0.5 a_k dt^2 + (1/6) j_k dt^3\<close>; and the progress is
  \<open>s_k = s0 + dt * (vs_0 + ... + vs_k)\<close>.
\<close>

theorem dynamics_kernels_closed_form:
  assumes "k < num_steps" and "i < num_steps"
    and "length js = num_steps" and "length vs = num_steps"
  shows "build_A_acc num_steps dt ! k ! i = (if i \<le> k then dt else 0) \<and>
         build_A_vel_from_jerk num_steps dt ! k ! i =
           (if i \<le> k then (real k - real i + 0.5) * dt ^ 2 else 0) \<and>
         vec_add (p_free num_steps dt p0 v0 a0) (matvec (build_A_pos_from_jerk num_steps dt) js) ! k =
           fst (rollout dt (p0, v0, a0) js ! k) \<and>
         s_traj num_steps dt s0 vs ! k = s0 + dt * (\<Sum>i\<le>k. vs ! i)"
proof (intro conjI)
  show "build_A_acc num_steps dt ! k ! i = (if i \<le> k then dt else 0)"
    using assms(1,2) by (rule A_acc_entry)
  show "build_A_vel_from_jerk num_steps dt ! k ! i =
      (if i \<le> k then (real k - real i + 0.5) * dt ^ 2 else 0)"
    using assms(1,2) by (rule A_vel_entry)
  show "vec_add (p_free num_steps dt p0 v0 a0) (matvec (build_A_pos_from_jerk num_steps dt) js) ! k =
      fst (rollout dt (p0, v0, a0) js ! k)"
    using assms(1,3) by (rule position_superposition)
  show "s_traj num_steps dt s0 vs ! k = s0 + dt * (\<Sum>i\<le>k. vs ! i)"
    using assms(1,4) by (rule s_traj_nth)
qed

theorem dynamics_kernels_closed_form_witness:
  "build_A_acc 2 (1 / 2) ! 1 ! 0 = 1 / 2 \<and>
   build_A_vel_from_jerk 2 (1 / 2) ! 1 ! 0 = 3 / 8 \<and>
   vec_add (p_free 2 (1 / 2) 1 2 4) (matvec (build_A_pos_from_jerk 2 (1 / 2)) [6, 12]) ! 1 = 49 / 8 \<and>
   s_traj 2 (1 / 2) 10 [1, 3] ! 1 = 12"
  using dynamics_kernels_closed_form [of 1 2 0 "[6, 12]" "[1, 3]" "1 / 2" 1 2 4 10]
  by (simp add: jerk_update_def power2_eq_square power3_eq_cube)

section \<open>The single-step noise model (noise.py)\<close>

text \<open>
  The helpers of \<open>point_and_click_modules\<close> (\<open>mouse_module\<close>, \<open>upper_limb_module\<close>) that the
  noise model calls are parameters of the model, collected in one record.
\<close>

record device_model =
  gain_func_can :: "real \<Rightarrow> real"
  mouse_noise :: "vec \<Rightarrow> vec \<Rightarrow> real \<Rightarrow> real \<Rightarrow> real \<Rightarrow> vec \<Rightarrow> real \<Rightarrow> vec \<times> vec \<times> real \<times> real"
  get_hand_orientation :: "real \<times> real \<Rightarrow> real \<Rightarrow> real"
  rot_mat :: "real \<Rightarrow> real \<Rightarrow> real \<Rightarrow> real \<times> real"
  get_cursor_displacement :: "real \<times> real \<Rightarrow> real \<times> real \<Rightarrow> real \<Rightarrow> real \<Rightarrow> real \<times> real"

text \<open>
  Every float of the noise model is a real number here, so \<open>np.isfinite\<close> holds of each of
  them; the guards on non-finite values are kept where the source has them.
  \<open>tiny\<close> is \<open>np.finfo(float).tiny\<close>, the smallest positive normal double.
\<close>

definition isfinite :: "real \<Rightarrow> bool" where
  "isfinite x \<longleftrightarrow> True"

definition tiny :: real where
  "tiny = 1 / 2 ^ 1022"

text \<open>The gain after the edge-case guard, and the device-frame velocity of the step.\<close>

definition guarded_gain :: "device_model \<Rightarrow> real \<Rightarrow> real \<Rightarrow> real" where
  "guarded_gain dev c_vel_x c_vel_y =
     (let speed = sqrt (c_vel_x ^ 2 + c_vel_y ^ 2);
          mouse_gain_val = gain_func_can dev speed
      in if \<not> isfinite mouse_gain_val \<or> mouse_gain_val < tiny then tiny else mouse_gain_val)"

definition device_velocity :: "device_model \<Rightarrow> real \<Rightarrow> real \<Rightarrow> vec \<times> vec" where
  "device_velocity dev c_vel_x c_vel_y =
     (let vx = [c_vel_x, c_vel_x];
          vy = [c_vel_y, c_vel_y];
          inv_gain = 1 / guarded_gain dev c_vel_x c_vel_y
      in (map (\<lambda>x. x * inv_gain) vx, map (\<lambda>y. y * inv_gain) vy))"

text \<open>\<open>vel_dir\<close>: the zero vector when \<open>v_norm == 0\<close>, the unit vector of \<open>v\<close> otherwise.\<close>

definition vel_dir_of :: "real \<times> real \<Rightarrow> real \<times> real" where
  "vel_dir_of v =
     (let v_norm = sqrt (fst v ^ 2 + snd v ^ 2)
      in if v_norm = 0 then (0, 0) else (fst v / v_norm, snd v / v_norm))"

text \<open>
  \<open>single_step_motor_and_device_noise\<close>. The global NumPy stream is an explicit state:
  \<open>normal\<close> is one call of \<open>np.random.normal(0, 1)\<close>, returning the sample and the next
  state. \<open>nc\<close> is the pair \<open>(nc[0], nc[1]\<close>). The result is the tuple the source returns,
  with the state of the stream after the call.
\<close>

type_synonym noise_result = "real \<times> real \<times> real \<times> real \<times> real \<times> real \<times> real \<times> real"

definition single_step_motor_and_device_noise ::
  "device_model \<Rightarrow> ('rng \<Rightarrow> real \<times> 'rng) \<Rightarrow> real \<Rightarrow> real \<Rightarrow> real \<Rightarrow> real \<Rightarrow>
   real \<times> real \<Rightarrow> real \<Rightarrow> real \<Rightarrow> 'rng \<Rightarrow> noise_result \<times> 'rng" where
  "single_step_motor_and_device_noise dev normal c_vel_x c_vel_y h_pos_x h_pos_y nc interval forearm rng =
     (let mouse_gain_val = guarded_gain dev c_vel_x c_vel_y;
          (vx_dev, vy_dev) = device_velocity dev c_vel_x c_vel_y;
          mouse_gain_arr = [mouse_gain_val, mouse_gain_val];
          (u1, u2, h_pos_x_ideal, h_pos_y_ideal) =
             mouse_noise dev vx_dev vy_dev h_pos_x h_pos_y forearm mouse_gain_arr interval;
          h_pos_delta_x_ideal = h_pos_x_ideal - h_pos_x;
          h_pos_delta_y_ideal = h_pos_y_ideal - h_pos_y;
          v = (vx_dev ! 1, vy_dev ! 1);
          v_norm = sqrt (fst v ^ 2 + snd v ^ 2);
          vel_dir = vel_dir_of v;
          vel_per = (- snd vel_dir, fst vel_dir);
          vel_mag = \<bar>v_norm\<bar>;
          (sample1, rng1) = normal rng;
          noise_dir = fst nc * vel_mag * sample1;
          (sample2, rng2) = normal rng1;
          noise_per = snd nc * vel_mag * sample2;
          vx_noisy_dev = fst v + noise_dir * fst vel_dir + noise_per * fst vel_per;
          vy_noisy_dev = snd v + noise_dir * snd vel_dir + noise_per * snd vel_per;
          vx_noisy = vx_noisy_dev * mouse_gain_val;
          vy_noisy = vy_noisy_dev * mouse_gain_val;
          dx = (c_vel_x + vx_noisy) / 2 * interval;
          dy = (c_vel_y + vy_noisy) / 2 * interval;
          hand_ori_prev = get_hand_orientation dev (h_pos_x, h_pos_y) forearm;
          (dx, dy, h_pos_x_out, h_pos_y_out) =
             (if \<bar>dx\<bar> > 1 / 10 ^ 10 \<or> \<bar>dy\<bar> > 1 / 10 ^ 10 then
                let hand_pos_prev = (h_pos_x, h_pos_y);
                    (hand_dx, hand_dy) = rot_mat dev dx dy (- hand_ori_prev);
                    h_pos_x_out = h_pos_x + hand_dx;
                    h_pos_y_out = h_pos_y + hand_dy;
                    (mouse_dx, mouse_dy) =
                       get_cursor_displacement dev hand_pos_prev (h_pos_x_out, h_pos_y_out)
                         forearm mouse_gain_val
                in (mouse_dx, mouse_dy, h_pos_x_out, h_pos_y_out)
              else (dx, dy, h_pos_x, h_pos_y));
          c_pos_dx = (if \<not> isfinite dx then 0 else dx);
          c_pos_dy = (if \<not> isfinite dy then 0 else dy);
          c_vel_x_out = (if \<not> isfinite vx_noisy then 0 else vx_noisy);
          c_vel_y_out = (if \<not> isfinite vy_noisy then 0 else vy_noisy);
          h_pos_x_out = (if \<not> isfinite h_pos_x_out then h_pos_x_ideal else h_pos_x_out);
          h_pos_y_out = (if \<not> isfinite h_pos_y_out then h_pos_y_ideal else h_pos_y_out);
          h_pos_delta_x = h_pos_x_out - h_pos_x;
          h_pos_delta_y = h_pos_y_out - h_pos_y
      in ((c_pos_dx, c_pos_dy, c_vel_x_out, c_vel_y_out, h_pos_x_out, h_pos_y_out,
           h_pos_delta_x, h_pos_delta_y), rng2))"

text \<open>
  \<open>CursorSimulator.__init__\<close>: the fields set from the built-in configuration, and the
  call \<open>np.random.seed(seed)\<close> with the configured seed 1000, which replaces the state of
  the global stream. \<open>seed\<close> is NumPy's seeding function.
\<close>

record CursorSimulator =
  self_interval :: real
  self_forearm :: real
  self_pred_horizon :: nat
  self_nc :: "real \<times> real"
  self_planner_margin :: real
  self_add_noise :: bool

definition CursorSimulator_init :: "(nat \<Rightarrow> 'rng) \<Rightarrow> 'rng \<Rightarrow> CursorSimulator \<times> 'rng" where
  "CursorSimulator_init seed rng =
     (let random_seed = Some 1000
      in (\<lparr>self_interval = 5 / 100, self_forearm = 357 / 1000, self_pred_horizon = 10,
           self_nc = (2 / 10, 2 / 100), self_planner_margin = 5 / 1000, self_add_noise = True\<rparr>,
          case random_seed of None \<Rightarrow> rng | Some s \<Rightarrow> seed s))"

lemma tiny_pos: "0 < tiny"
  by (simp add: tiny_def)

lemma device_velocity_zero: "device_velocity dev 0 0 = ([0, 0], [0, 0])"
  by (simp add: device_velocity_def)

lemma vel_dir_of_zero: "vel_dir_of (0, 0) = (0, 0)"
  by (simp add: vel_dir_of_def)

text \<open>
  Claim C8. With zero input velocity the direction used for the noise is the zero vector,
  the returned noisy velocity is \<open>(0, 0)\<close> and the returned position delta is \<open>(0, 0)\<close>, for
  every state of the random stream (hence every pair of samples drawn); the hand position
  is returned as given.
\<close>

theorem zero_velocity_no_noise:
  "vel_dir_of (fst (device_velocity dev 0 0) ! 1, snd (device_velocity dev 0 0) ! 1) = (0, 0) \<and>
   fst (single_step_motor_and_device_noise dev normal 0 0 h_pos_x h_pos_y nc interval forearm rng) =
     (0, 0, 0, 0, h_pos_x, h_pos_y, 0, 0)"
proof
  have v: "(fst (device_velocity dev 0 0) ! 1, snd (device_velocity dev 0 0) ! 1) = (0, 0)"
    by (simp add: device_velocity_zero)
  show "vel_dir_of (fst (device_velocity dev 0 0) ! 1, snd (device_velocity dev 0 0) ! 1) = (0, 0)"
    by (simp only: v vel_dir_of_zero)
  show "fst (single_step_motor_and_device_noise dev normal 0 0 h_pos_x h_pos_y nc interval forearm rng) =
     (0, 0, 0, 0, h_pos_x, h_pos_y, 0, 0)"
    unfolding single_step_motor_and_device_noise_def Let_def split_def v
    unfolding vel_dir_of_zero fst_conv snd_conv
    by (simp add: isfinite_def)
qed

theorem zero_velocity_no_noise_witness:
  "vel_dir_of
     (fst (device_velocity
        \<lparr>gain_func_can = \<lambda>s. 1, mouse_noise = \<lambda>vx vy hx hy f g i. ([], [], hx, hy),
         get_hand_orientation = \<lambda>p f. 0, rot_mat = \<lambda>dx dy a. (dx, dy),
         get_cursor_displacement = \<lambda>p q f g. (fst q - fst p, snd q - snd p)\<rparr> 0 0) ! 1,
      snd (device_velocity
        \<lparr>gain_func_can = \<lambda>s. 1, mouse_noise = \<lambda>vx vy hx hy f g i. ([], [], hx, hy),
         get_hand_orientation = \<lambda>p f. 0, rot_mat = \<lambda>dx dy a. (dx, dy),
         get_cursor_displacement = \<lambda>p q f g. (fst q - fst p, snd q - snd p)\<rparr> 0 0) ! 1) = (0, 0) \<and>
   fst (single_step_motor_and_device_noise
        \<lparr>gain_func_can = \<lambda>s. 1, mouse_noise = \<lambda>vx vy hx hy f g i. ([], [], hx, hy),
         get_hand_orientation = \<lambda>p f. 0, rot_mat = \<lambda>dx dy a. (dx, dy),
         get_cursor_displacement = \<lambda>p q f g. (fst q - fst p, snd q - snd p)\<rparr>
        (\<lambda>n::nat. (real (n mod 2) - 1 / 2, Suc n)) 0 0 (1 / 10) (1 / 5) (1 / 5, 1 / 50) (1 / 20)
        (357 / 1000) 0) = (0, 0, 0, 0, 1 / 10, 1 / 5, 0, 0)"
  by (rule zero_velocity_no_noise)

text \<open>
  Claim C9. The outputs of a noise step depend on the random stream only through the two
  samples it draws, in order, and the step leaves the stream two draws further: two runs
  from stream states that deliver the same two samples (in particular from the same
  state), with identical inputs, return identical position deltas, velocities and hand
  positions. Constructing the simulator seeds the stream with the configured seed, so
  the state after construction, and with it the noise step that follows, does not depend
  on the state before.
\<close>

theorem noise_deterministic:
  assumes "normal rng_a = (sample1, rng_a1)" and "normal rng_a1 = (sample2, rng_a2)"
    and "normal rng_b = (sample1, rng_b1)" and "normal rng_b1 = (sample2, rng_b2)"
  shows "fst (single_step_motor_and_device_noise dev normal c_vel_x c_vel_y h_pos_x h_pos_y
                nc interval forearm rng_a) =
         fst (single_step_motor_and_device_noise dev normal c_vel_x c_vel_y h_pos_x h_pos_y
                nc interval forearm rng_b) \<and>
         snd (single_step_motor_and_device_noise dev normal c_vel_x c_vel_y h_pos_x h_pos_y
                nc interval forearm rng_a) = rng_a2 \<and>
         snd (single_step_motor_and_device_noise dev normal c_vel_x c_vel_y h_pos_x h_pos_y
                nc interval forearm rng_b) = rng_b2 \<and>
         single_step_motor_and_device_noise dev normal c_vel_x c_vel_y h_pos_x h_pos_y
                nc interval forearm (snd (CursorSimulator_init seed rng_a)) =
         single_step_motor_and_device_noise dev normal c_vel_x c_vel_y h_pos_x h_pos_y
                nc interval forearm (snd (CursorSimulator_init seed rng_b))"
  unfolding single_step_motor_and_device_noise_def CursorSimulator_init_def Let_def split_def
  by (simp only: assms fst_conv snd_conv option.case simp_thms)

theorem noise_deterministic_witness:
  "fst (single_step_motor_and_device_noise
        \<lparr>gain_func_can = \<lambda>s. 1, mouse_noise = \<lambda>vx vy hx hy f g i. ([], [], hx, hy),
         get_hand_orientation = \<lambda>p f. 0, rot_mat = \<lambda>dx dy a. (dx, dy),
         get_cursor_displacement = \<lambda>p q f g. (fst q - fst p, snd q - snd p)\<rparr>
        (\<lambda>n::nat. (real (n mod 2) - 1 / 2, Suc n)) 3 4 (1 / 10) (1 / 5) (1 / 5, 1 / 50) (1 / 20)
        (357 / 1000) 0) =
   fst (single_step_motor_and_device_noise
        \<lparr>gain_func_can = \<lambda>s. 1, mouse_noise = \<lambda>vx vy hx hy f g i. ([], [], hx, hy),
         get_hand_orientation = \<lambda>p f. 0, rot_mat = \<lambda>dx dy a. (dx, dy),
         get_cursor_displacement = \<lambda>p q f g. (fst q - fst p, snd q - snd p)\<rparr>
        (\<lambda>n::nat. (real (n mod 2) - 1 / 2, Suc n)) 3 4 (1 / 10) (1 / 5) (1 / 5, 1 / 50) (1 / 20)
        (357 / 1000) 2) \<and>
   snd (single_step_motor_and_device_noise
        \<lparr>gain_func_can = \<lambda>s. 1, mouse_noise = \<lambda>vx vy hx hy f g i. ([], [], hx, hy),
         get_hand_orientation = \<lambda>p f. 0, rot_mat = \<lambda>dx dy a. (dx, dy),
         get_cursor_displacement = \<lambda>p q f g. (fst q - fst p, snd q - snd p)\<rparr>
        (\<lambda>n::nat. (real (n mod 2) - 1 / 2, Suc n)) 3 4 (1 / 10) (1 / 5) (1 / 5, 1 / 50) (1 / 20)
        (357 / 1000) 0) = 2 \<and>
   snd (single_step_motor_and_device_noise
        \<lparr>gain_func_can = \<lambda>s. 1, mouse_noise = \<lambda>vx vy hx hy f g i. ([], [], hx, hy),
         get_hand_orientation = \<lambda>p f. 0, rot_mat = \<lambda>dx dy a. (dx, dy),
         get_cursor_displacement = \<lambda>p q f g. (fst q - fst p, snd q - snd p)\<rparr>
        (\<lambda>n::nat. (real (n mod 2) - 1 / 2, Suc n)) 3 4 (1 / 10) (1 / 5) (1 / 5, 1 / 50) (1 / 20)
        (357 / 1000) 2) = 4"
proof -
  let ?normal = "\<lambda>n::nat. (real (n mod 2) - 1 / 2, Suc n)"
  have a1: "?normal 0 = (- (1 / 2), 1)" and a2: "?normal 1 = (1 / 2, 2)"
    and b1: "?normal 2 = (- (1 / 2), 3)" and b2: "?normal 3 = (1 / 2, 4)"
    by simp_all
  from noise_deterministic [of ?normal, OF a1 a2 b1 b2] show ?thesis
    by blast
qed


section \<open>Reference paths (reference_path.py)\<close>

text \<open>
  A waypoint handed to the constructor may hold floats that are not finite, so the
  coordinates of the input are values of \<open>pyfloat\<close>; after the non-finite rows are
  removed, the coordinates are reals.
\<close>

datatype pyfloat = Finite real | PosInf | NegInf | NaN

fun np_isfinite :: "pyfloat \<Rightarrow> bool" where
  "np_isfinite (Finite x) = True"
| "np_isfinite PosInf = False"
| "np_isfinite NegInf = False"
| "np_isfinite NaN = False"

fun float_value :: "pyfloat \<Rightarrow> real" where
  "float_value (Finite x) = x"
| "float_value PosInf = 0"
| "float_value NegInf = 0"
| "float_value NaN = 0"

type_synonym point = "real \<times> real"

datatype path_error =
  AxisError
  | AllWaypointsInvalid
  | NeedTwoDistinctWaypoints nat
  | SplprepFailed
  | DerivativeOrder nat int
  | NegativeSamples
  | NothingToStack
  | NegativeDimensions

text \<open>Vector operations on points, and \<open>np.linalg.norm\<close> of a point.\<close>

definition pt_add :: "point \<Rightarrow> point \<Rightarrow> point" where
  "pt_add p q = (fst p + fst q, snd p + snd q)"

definition pt_sub :: "point \<Rightarrow> point \<Rightarrow> point" where
  "pt_sub p q = (fst p - fst q, snd p - snd q)"

definition pt_scale :: "point \<Rightarrow> real \<Rightarrow> point" where
  "pt_scale p c = (fst p * c, snd p * c)"

definition norm2 :: "point \<Rightarrow> real" where
  "norm2 p = sqrt (fst p ^ 2 + snd p ^ 2)"

text \<open>
  \<open>np.diff(pts, axis=0)\<close> followed by the row norms: the lengths of the segments
  between consecutive points.
\<close>

definition segment_lengths :: "point list \<Rightarrow> real list" where
  "segment_lengths pts = map2 (\<lambda>p q. norm2 (pt_sub q p)) pts (tl pts)"

text \<open>Boolean-mask indexing \<open>a[mask]\<close>.\<close>

definition select_mask :: "'a list \<Rightarrow> bool list \<Rightarrow> 'a list" where
  "select_mask xs keep = map fst (filter snd (zip xs keep))"

text \<open>
  \<open>_validate_and_prepare_waypoints\<close>, in the order of the source. The last three stages
  work on at least two points: a middle point is added to two points, an offset point to
  three, and a middle point is nudged when the first, second and last point are collinear.
\<close>

definition add_middle_point :: "point list \<Rightarrow> point list" where
  "add_middle_point waypoints =
     (if length waypoints = 2 then
        let mid_point = pt_scale (pt_add (waypoints ! 0) (waypoints ! 1)) (1 / 2)
        in [waypoints ! 0, mid_point, waypoints ! 1]
      else waypoints)"

definition add_offset_point :: "point list \<Rightarrow> point list" where
  "add_offset_point waypoints =
     (if length waypoints = 3 then
        let mid_point = waypoints ! 1;
            dir_vec = pt_sub (waypoints ! 2) (waypoints ! 0);
            perp = (- snd dir_vec, fst dir_vec);
            perp = pt_scale perp (1 / (norm2 perp + 1 / 10 ^ 10));
            offset_point = pt_add mid_point (pt_scale perp (1 / 10 ^ 6))
        in [waypoints ! 0, waypoints ! 1, offset_point, waypoints ! 2]
      else waypoints)"

definition break_collinearity :: "point list \<Rightarrow> point list" where
  "break_collinearity waypoints =
     (if length waypoints \<ge> 3 then
        let vec1 = pt_sub (waypoints ! 1) (waypoints ! 0);
            vec2 = pt_sub (last waypoints) (waypoints ! 0);
            cross = fst vec1 * snd vec2 - snd vec1 * fst vec2
        in if \<bar>cross\<bar> < 1 / 10 ^ 10 then
             let mid_idx = length waypoints div 2;
                 dir_vec = pt_sub (last waypoints) (waypoints ! 0);
                 perp = (- snd dir_vec, fst dir_vec);
                 perp = pt_scale perp (1 / (norm2 perp + 1 / 10 ^ 10))
             in waypoints[mid_idx := pt_add (waypoints ! mid_idx) (pt_scale perp (1 / 10 ^ 6))]
           else waypoints
      else waypoints)"

text \<open>The stages after the non-finite rows are gone, from the removal of duplicates on.\<close>

definition prepare_finite_waypoints :: "point list \<Rightarrow> path_error + point list" where
  "prepare_finite_waypoints waypoints =
     (let waypoints =
            (if length waypoints > 1 then
               let dists = segment_lengths waypoints;
                   keep_mask = True # map (\<lambda>d. d > 1 / 10 ^ 10) dists
               in select_mask waypoints keep_mask
             else waypoints)
      in if length waypoints < 2 then Inl (NeedTwoDistinctWaypoints (length waypoints))
         else Inr (break_collinearity (add_offset_point (add_middle_point waypoints))))"

text \<open>
  On an empty list \<open>np.asarray\<close> gives a one-dimensional array, and \<open>all(axis=1)\<close> raises
  \<open>AxisError\<close> (a \<open>ValueError\<close>).
\<close>

definition validate_and_prepare_waypoints ::
  "(pyfloat \<times> pyfloat) list \<Rightarrow> path_error + point list" where
  "validate_and_prepare_waypoints waypoints =
     (if waypoints = [] then Inl AxisError
      else
        let valid_mask = map (\<lambda>w. np_isfinite (fst w) \<and> np_isfinite (snd w)) waypoints
        in if \<not> list_all id valid_mask then
             let waypoints = select_mask waypoints valid_mask
             in if length waypoints = 0 then Inl AllWaypointsInvalid
                else prepare_finite_waypoints
                       (map (\<lambda>w. (float_value (fst w), float_value (snd w))) waypoints)
           else prepare_finite_waypoints
                  (map (\<lambda>w. (float_value (fst w), float_value (snd w))) waypoints))"

text \<open>
  What the specification says remains of a waypoint list: the finite waypoints, without
  the points that lie within \<open>1e-10\<close> of the point before them.
\<close>

definition finite_waypoints :: "(pyfloat \<times> pyfloat) list \<Rightarrow> point list" where
  "finite_waypoints waypoints =
     map (\<lambda>w. (float_value (fst w), float_value (snd w)))
       (filter (\<lambda>w. np_isfinite (fst w) \<and> np_isfinite (snd w)) waypoints)"

fun drop_near_duplicates :: "point list \<Rightarrow> point list" where
  "drop_near_duplicates [] = []"
| "drop_near_duplicates [p] = [p]"
| "drop_near_duplicates (p # q # ps) =
     (if norm2 (pt_sub q p) \<le> 1 / 10 ^ 10
      then p # tl (drop_near_duplicates (q # ps))
      else p # drop_near_duplicates (q # ps))"

definition remaining_waypoints :: "(pyfloat \<times> pyfloat) list \<Rightarrow> point list" where
  "remaining_waypoints waypoints = drop_near_duplicates (finite_waypoints waypoints)"

lemma select_mask_Cons:
  "select_mask (x # xs) (b # bs) = (if b then x # select_mask xs bs else select_mask xs bs)"
  by (simp add: select_mask_def)

lemma segment_lengths_Cons:
  "segment_lengths (p # q # ps) = norm2 (pt_sub q p) # segment_lengths (q # ps)"
  by (simp add: segment_lengths_def)

lemma keep_mask_drop_Cons:
  "select_mask (p # ps) (b # map (\<lambda>d. d > 1 / 10 ^ 10) (segment_lengths (p # ps))) =
     (if b then drop_near_duplicates (p # ps) else tl (drop_near_duplicates (p # ps)))"
proof (induction ps arbitrary: p b)
  case Nil
  then show ?case by (simp add: select_mask_def segment_lengths_def)
next
  case (Cons q ps)
  have "select_mask (p # q # ps) (b # map (\<lambda>d. d > 1 / 10 ^ 10) (segment_lengths (p # q # ps))) =
      (if b then [p] else []) @
      select_mask (q # ps) ((norm2 (pt_sub q p) > 1 / 10 ^ 10) #
        map (\<lambda>d. d > 1 / 10 ^ 10) (segment_lengths (q # ps)))"
    by (simp add: select_mask_def segment_lengths_def)
  also have "select_mask (q # ps) ((norm2 (pt_sub q p) > 1 / 10 ^ 10) #
        map (\<lambda>d. d > 1 / 10 ^ 10) (segment_lengths (q # ps))) =
      (if norm2 (pt_sub q p) > 1 / 10 ^ 10 then drop_near_duplicates (q # ps)
       else tl (drop_near_duplicates (q # ps)))"
    by (rule Cons.IH)
  finally show ?case by (simp add: not_le)
qed

lemma keep_mask_drop:
  "select_mask pts (True # map (\<lambda>d. d > 1 / 10 ^ 10) (segment_lengths pts)) =
     drop_near_duplicates pts"
proof (cases pts)
  case Nil
  then show ?thesis by (simp add: select_mask_def)
next
  case (Cons p ps)
  show ?thesis unfolding Cons by (simp only: keep_mask_drop_Cons if_True)
qed

lemma select_mask_filter: "select_mask ws (map P ws) = filter P ws"
  by (induction ws) (auto simp: select_mask_def)

lemma filter_all_valid: "list_all id (map P ws) \<Longrightarrow> filter P ws = ws"
  by (induction ws) auto

lemma drop_near_duplicates_single: "length pts \<le> 1 \<Longrightarrow> drop_near_duplicates pts = pts"
  by (cases pts rule: drop_near_duplicates.cases) auto

lemma prepare_finite_cases:
  "prepare_finite_waypoints pts =
     (if length (drop_near_duplicates pts) < 2
      then Inl (NeedTwoDistinctWaypoints (length (drop_near_duplicates pts)))
      else Inr (break_collinearity (add_offset_point (add_middle_point (drop_near_duplicates pts)))))"
proof -
  have "(if length pts > 1
        then select_mask pts (True # map (\<lambda>d. d > 1 / 10 ^ 10) (segment_lengths pts)) else pts)
      = drop_near_duplicates pts"
    by (simp only: keep_mask_drop) (simp add: drop_near_duplicates_single)
  then show ?thesis
    unfolding prepare_finite_waypoints_def Let_def by (simp only:)
qed

lemma validate_cases:
  "validate_and_prepare_waypoints ws =
     (if ws = [] then Inl AxisError
      else if finite_waypoints ws = [] then Inl AllWaypointsInvalid
      else prepare_finite_waypoints (finite_waypoints ws))"
proof (cases "list_all id (map (\<lambda>w. np_isfinite (fst w) \<and> np_isfinite (snd w)) ws)")
  case True
  then have "finite_waypoints ws = map (\<lambda>w. (float_value (fst w), float_value (snd w))) ws"
    by (simp add: finite_waypoints_def filter_all_valid)
  with True show ?thesis
    by (simp add: validate_and_prepare_waypoints_def)
next
  case False
  then show ?thesis
    by (simp add: validate_and_prepare_waypoints_def Let_def select_mask_filter
        finite_waypoints_def)
qed

lemma validate_raises_iff:
  "(\<exists>e. validate_and_prepare_waypoints ws = Inl e) \<longleftrightarrow> length (remaining_waypoints ws) < 2"
  by (auto simp: validate_cases prepare_finite_cases remaining_waypoints_def finite_waypoints_def)

lemma drop_near_duplicates_Nil: "drop_near_duplicates pts = [] \<longleftrightarrow> pts = []"
  by (cases pts rule: drop_near_duplicates.cases) auto

lemma distinct_pair_remains:
  "Suc i < length pts \<Longrightarrow> norm2 (pt_sub (pts ! Suc i) (pts ! i)) > 1 / 10 ^ 10 \<Longrightarrow>
   2 \<le> length (drop_near_duplicates pts)"
proof (induction pts arbitrary: i rule: drop_near_duplicates.induct)
  case 1
  then show ?case by simp
next
  case (2 p)
  then show ?case by simp
next
  case (3 p q ps)
  have ne: "drop_near_duplicates (q # ps) \<noteq> []"
    by (simp add: drop_near_duplicates_Nil)
  show ?case
  proof (cases i)
    case 0
    with "3.prems" have "\<not> norm2 (pt_sub q p) \<le> 1 / 10 ^ 10" by simp
    then have "drop_near_duplicates (p # q # ps) = p # drop_near_duplicates (q # ps)" by simp
    with ne show ?thesis by (cases "drop_near_duplicates (q # ps)") auto
  next
    case (Suc j)
    with "3.prems" have j: "Suc j < length (q # ps)"
      and d: "norm2 (pt_sub ((q # ps) ! Suc j) ((q # ps) ! j)) > 1 / 10 ^ 10" by auto
    have "2 \<le> length (drop_near_duplicates (q # ps))"
    proof (cases "norm2 (pt_sub q p) \<le> 1 / 10 ^ 10")
      case True
      from "3.IH"(1)[OF True j d] show ?thesis .
    next
      case False
      from "3.IH"(2)[OF False j d] show ?thesis .
    qed
    then show ?thesis
      by (cases "drop_near_duplicates (q # ps)") auto
  qed
qed

lemma norm2_axis: "norm2 (a, 0) = \<bar>a\<bar>"
  by (simp add: norm2_def)

lemma remaining_pair:
  "2 \<le> length (drop_near_duplicates pts) \<Longrightarrow>
   \<exists>i. Suc i < length pts \<and> norm2 (pt_sub (pts ! Suc i) (pts ! i)) > 1 / 10 ^ 10"
proof (induction pts rule: drop_near_duplicates.induct)
  case 1
  then show ?case by simp
next
  case (2 p)
  then show ?case by simp
next
  case (3 p q ps)
  show ?case
  proof (cases "norm2 (pt_sub q p) \<le> 1 / 10 ^ 10")
    case True
    with "3.prems" have "2 \<le> length (drop_near_duplicates (q # ps))"
      by (cases "drop_near_duplicates (q # ps)") auto
    from "3.IH"(1)[OF True this] obtain i where "Suc i < length (q # ps)"
      and "norm2 (pt_sub ((q # ps) ! Suc i) ((q # ps) ! i)) > 1 / 10 ^ 10" by blast
    then have "Suc (Suc i) < length (p # q # ps) \<and>
        norm2 (pt_sub ((p # q # ps) ! Suc (Suc i)) ((p # q # ps) ! Suc i)) > 1 / 10 ^ 10"
      by simp
    then show ?thesis by blast
  next
    case False
    then have "Suc 0 < length (p # q # ps) \<and>
        norm2 (pt_sub ((p # q # ps) ! Suc 0) ((p # q # ps) ! 0)) > 1 / 10 ^ 10"
      by simp
    then show ?thesis by blast
  qed
qed

section \<open>The reference path object\<close>

text \<open>
  The spline routines of SciPy (\<open>splprep\<close>, \<open>splev\<close>) and \<open>np.interp\<close> are parameters of the
  model. \<open>splprep\<close> fits a spline of a given degree through the coordinate lists and
  returns its knots and coefficients (a value of a type \<open>'c\<close> left to the library) with the
  parameter values, or fails with a \<open>ValueError\<close> (\<open>None\<close>). The tuple \<open>tck\<close> that the source
  keeps holds the knots, the coefficients and the degree \<open>k\<close> that was asked for.
  \<open>splev u tck der\<close> evaluates the derivative of order \<open>der\<close> of the spline at \<open>u\<close>.
\<close>

type_synonym 'c tck = "'c \<times> int"

record 'c spline_lib =
  splprep :: "vec \<Rightarrow> vec \<Rightarrow> real \<Rightarrow> int \<Rightarrow> ('c \<times> vec) option"
  splev :: "real \<Rightarrow> 'c tck \<Rightarrow> nat \<Rightarrow> point"
  np_interp :: "real \<Rightarrow> vec \<Rightarrow> vec \<Rightarrow> real"

text \<open>
  SciPy's \<open>splev\<close> checks the order of the derivative before it evaluates: unless
  \<open>0 <= der <= k\<close> it raises a \<open>ValueError\<close>. \<open>splprep\<close> takes the degrees 1 to 5 only, so
  the orders 0 and 1, which the position and the tangent ask for, pass the check on
  every fitted spline, and the model evaluates them directly; the order 2, which the
  curvature and the Newton step of the projection ask for, passes on splines of degree 2
  and more.
\<close>

definition splev_der :: "'c spline_lib \<Rightarrow> real \<Rightarrow> 'c tck \<Rightarrow> nat \<Rightarrow> path_error + point" where
  "splev_der lib u tck der =
     (if int der \<le> snd tck then Inr (splev lib u tck der)
      else Inl (DerivativeOrder der (snd tck)))"

text \<open>The attributes of a \<open>ReferencePath\<close>; \<open>self_u\<close> is the attribute \<open>self.u\<close>, and so on.\<close>

record 'c ReferencePath =
  self_waypoints :: "point list"
  self_tck :: "'c tck"
  self_u :: vec
  self_arclengths :: vec
  self_u_dense :: vec
  self_total_length :: real

definition linspace :: "real \<Rightarrow> real \<Rightarrow> nat \<Rightarrow> vec" where
  "linspace start stop num =
     (if num = 1 then [start]
      else map (\<lambda>i. start + real i * ((stop - start) / real (num - 1))) [0..<num])"

fun cumsum_from :: "real \<Rightarrow> vec \<Rightarrow> vec" where
  "cumsum_from acc [] = []"
| "cumsum_from acc (x # xs) = (acc + x) # cumsum_from (acc + x) xs"

definition cumsum :: "vec \<Rightarrow> vec" where
  "cumsum xs = cumsum_from 0 xs"

text \<open>
  \<open>ReferencePath.__init__\<close>. The degree is capped by the number of prepared waypoints and
  is at least 1; a failed fit is retried once with degree 1 when the capped degree was
  larger, and the spline kept has the degree of the fit that succeeded. The arclength
  table is the running sum of the distances between 1000 samples of the curve.
\<close>

definition ReferencePath_init ::
  "'c spline_lib \<Rightarrow> (pyfloat \<times> pyfloat) list \<Rightarrow> real \<Rightarrow> int \<Rightarrow> path_error + 'c ReferencePath" where
  "ReferencePath_init lib wps s k =
     (case validate_and_prepare_waypoints wps of
        Inl e \<Rightarrow> Inl e
      | Inr waypoints \<Rightarrow>
          let max_k = min k (int (length waypoints) - 1);
              max_k = (if max_k < 1 then 1 else max_k);
              xs = map fst waypoints;
              ys = map snd waypoints;
              fit = (case splprep lib xs ys s max_k of
                       Some (tc, u) \<Rightarrow> Some ((tc, max_k), u)
                     | None \<Rightarrow>
                         (if max_k > 1 then
                            (case splprep lib xs ys s 1 of
                               Some (tc, u) \<Rightarrow> Some ((tc, 1), u)
                             | None \<Rightarrow> None)
                          else None))
          in case fit of
               None \<Rightarrow> Inl SplprepFailed
             | Some (tck, u) \<Rightarrow>
                 let u_dense = linspace 0 1 1000;
                     xy_dense = map (\<lambda>u. splev lib u tck 0) u_dense;
                     ds = segment_lengths xy_dense;
                     arclengths = 0 # cumsum ds
                 in Inr \<lparr>self_waypoints = waypoints, self_tck = tck, self_u = u,
                          self_arclengths = arclengths, self_u_dense = u_dense,
                          self_total_length = last arclengths\<rparr>)"

text \<open>\<open>np.clip\<close> on a scalar, and the queries of the path.\<close>

definition np_clip :: "real \<Rightarrow> real \<Rightarrow> real \<Rightarrow> real" where
  "np_clip x lo hi = min (max x lo) hi"

definition theta_to_u :: "'c spline_lib \<Rightarrow> 'c ReferencePath \<Rightarrow> real \<Rightarrow> real" where
  "theta_to_u lib self theta =
     (let theta = np_clip theta 0 (self_total_length self)
      in np_interp lib theta (self_arclengths self) (self_u_dense self))"

definition path_call :: "'c spline_lib \<Rightarrow> 'c ReferencePath \<Rightarrow> real \<Rightarrow> point" where
  "path_call lib self theta =
     (let u = theta_to_u lib self theta in splev lib u (self_tck self) 0)"

definition tangent :: "'c spline_lib \<Rightarrow> 'c ReferencePath \<Rightarrow> real \<Rightarrow> point" where
  "tangent lib self theta =
     (let u = theta_to_u lib self theta;
          t = splev lib u (self_tck self) 1;
          nrm = norm2 t
      in if nrm < 1 / 10 ^ 9 then (1, 0) else (fst t / nrm, snd t / nrm))"

definition normal :: "'c spline_lib \<Rightarrow> 'c ReferencePath \<Rightarrow> real \<Rightarrow> point" where
  "normal lib self theta = (let t = tangent lib self theta in (snd t, - fst t))"

text \<open>
  \<open>curvature\<close> asks \<open>splev\<close> for the second derivative whatever the degree of the spline:
  on a spline of degree 1 the call raises.
\<close>

definition curvature :: "'c spline_lib \<Rightarrow> 'c ReferencePath \<Rightarrow> real \<Rightarrow> path_error + real" where
  "curvature lib self theta =
     (let u = theta_to_u lib self theta;
          dxy = splev lib u (self_tck self) 1
      in case splev_der lib u (self_tck self) 2 of
           Inl e \<Rightarrow> Inl e
         | Inr ddxy \<Rightarrow>
             let dx = fst dxy; dy = snd dxy;
                 ddx = fst ddxy; ddy = snd ddxy;
                 num = dx * ddy - dy * ddx;
                 den = (dx ^ 2 + dy ^ 2) powr (3 / 2)
             in Inr (if den < 1 / 10 ^ 12 then 0 else num / den))"

text \<open>\<open>np.argmin\<close>: the first index of a smallest entry.\<close>

definition argmin :: "real list \<Rightarrow> nat" where
  "argmin xs =
     fst (fold (\<lambda>i (best, v). if xs ! i < v then (i, xs ! i) else (best, v))
            [1..<length xs] (0, xs ! 0))"

text \<open>
  The Newton refinement of \<open>find_closest_theta\<close> on \<open>f(u) = ||c(u) - pos||^2\<close>: the loop runs
  at most \<open>max_iter\<close> times, and leaves early on a small second derivative, a small step,
  or a small move after clipping. Every pass starts by evaluating the position and the
  first and second derivative, so the first pass raises on a spline of degree 1.
\<close>

primrec newton_refine ::
  "'c spline_lib \<Rightarrow> 'c tck \<Rightarrow> real \<Rightarrow> real \<Rightarrow> real \<Rightarrow> real \<Rightarrow> nat \<Rightarrow> real \<Rightarrow> path_error + real" where
  "newton_refine lib tck px py min_u tol 0 = (\<lambda>u0. Inr u0)"
| "newton_refine lib tck px py min_u tol (Suc n) = (\<lambda>u0.
     (let c = splev lib u0 tck 0;
          c1 = splev lib u0 tck 1
      in case splev_der lib u0 tck 2 of
           Inl e \<Rightarrow> Inl e
         | Inr c2 \<Rightarrow>
             let rx = fst c - px;
                 ry = snd c - py;
                 c1x = fst c1; c1y = snd c1;
                 c2x = fst c2; c2y = snd c2;
                 f_prime = 2 * (rx * c1x + ry * c1y);
                 f_second = 2 * ((c1x * c1x + c1y * c1y) + (rx * c2x + ry * c2y))
             in if \<bar>f_second\<bar> < 1 / 10 ^ 12 then Inr u0
                else
                  let du = - f_prime / f_second
                  in if \<bar>du\<bar> < tol then Inr u0
                     else
                       let u_new = u0 + du;
                           u_new = np_clip u_new min_u 1
                       in if \<bar>u_new - u0\<bar> < tol then Inr u_new
                          else newton_refine lib tck px py min_u tol n u_new))"

text \<open>
  \<open>find_closest_theta\<close>: the initial parameter is that of the given guess, or of the
  nearest of the dense samples; a \<open>min_theta\<close> gives a floor on the parameter; after the
  refinement the parameter is mapped back to arclength.
\<close>

definition find_closest_theta ::
  "'c spline_lib \<Rightarrow> 'c ReferencePath \<Rightarrow> point \<Rightarrow> real option \<Rightarrow> real option \<Rightarrow>
   path_error + real" where
  "find_closest_theta lib self pos initial_guess min_theta =
     (let px = fst pos; py = snd pos;
          u0 = (case initial_guess of
                  Some g \<Rightarrow>
                    let theta0 = np_clip g 0 (self_total_length self)
                    in np_interp lib theta0 (self_arclengths self) (self_u_dense self)
                | None \<Rightarrow>
                    let xy = map (\<lambda>u. splev lib u (self_tck self) 0) (self_u_dense self);
                        dist2 = map (\<lambda>p. (fst p - px) * (fst p - px) + (snd p - py) * (snd p - py)) xy;
                        idx = argmin dist2
                    in self_u_dense self ! idx);
          min_u = (case min_theta of
                     None \<Rightarrow> 0
                   | Some min_theta_val \<Rightarrow>
                       np_interp lib min_theta_val (self_arclengths self) (self_u_dense self));
          u0 = (case min_theta of None \<Rightarrow> u0 | Some min_theta_val \<Rightarrow> max u0 min_u);
          max_iter = 5;
          tol = 1 / 10 ^ 6
      in case newton_refine lib (self_tck self) px py min_u tol max_iter u0 of
           Inl e \<Rightarrow> Inl e
         | Inr u0 \<Rightarrow> Inr (np_interp lib u0 (self_u_dense self) (self_arclengths self)))"

text \<open>
  A call of a method on a path object gives the value returned (or the exception) and
  the object as the call leaves it. The bodies of \<open>__call__\<close>, \<open>tangent\<close>, \<open>normal\<close>,
  \<open>curvature\<close>, \<open>find_closest_theta\<close> and \<open>_theta_to_u\<close> read the attributes of \<open>self\<close>; none
  assigns an attribute or writes into one of the arrays (\<open>np.clip\<close>, \<open>np.interp\<close> and
  \<open>splev\<close> return new arrays), so the object a call leaves is the one it was given.
  \<open>after_calls\<close> is the object after a sequence of calls.
\<close>

datatype path_method =
  Call real
  | Tangent real
  | Normal real
  | Curvature real
  | FindClosestTheta point "real option" "real option"
  | ThetaToU real

datatype method_value = PointValue point | FloatValue real

definition invoke ::
  "'c spline_lib \<Rightarrow> 'c ReferencePath \<Rightarrow> path_method \<Rightarrow>
   (path_error + method_value) \<times> 'c ReferencePath" where
  "invoke lib self m =
     (case m of
        Call theta \<Rightarrow> (Inr (PointValue (path_call lib self theta)), self)
      | Tangent theta \<Rightarrow> (Inr (PointValue (tangent lib self theta)), self)
      | Normal theta \<Rightarrow> (Inr (PointValue (normal lib self theta)), self)
      | Curvature theta \<Rightarrow> (map_sum id FloatValue (curvature lib self theta), self)
      | FindClosestTheta pos initial_guess min_theta \<Rightarrow>
          (map_sum id FloatValue (find_closest_theta lib self pos initial_guess min_theta), self)
      | ThetaToU theta \<Rightarrow> (Inr (FloatValue (theta_to_u lib self theta)), self))"

definition after_calls ::
  "'c spline_lib \<Rightarrow> 'c ReferencePath \<Rightarrow> path_method list \<Rightarrow> 'c ReferencePath" where
  "after_calls lib self ms = fold (\<lambda>m obj. snd (invoke lib obj m)) ms self"

text \<open>
  A concrete spline library for evaluating the model. \<open>lin_interp\<close> is piecewise-linear
  interpolation through the data points, constant outside them, as \<open>np.interp\<close> documents
  it. Every fit of \<open>straight_line_lib\<close> is the unit-speed straight line along the x axis.
\<close>

fun interp_walk :: "real \<Rightarrow> real list \<Rightarrow> real list \<Rightarrow> real" where
  "interp_walk x (a # b # xp) (fa # fb # fp) =
     (if x < b then fa + (x - a) * ((fb - fa) / (b - a)) else interp_walk x (b # xp) (fb # fp))"
| "interp_walk x xp fp = (case fp of [] \<Rightarrow> 0 | f # _ \<Rightarrow> f)"

definition lin_interp :: "real \<Rightarrow> real list \<Rightarrow> real list \<Rightarrow> real" where
  "lin_interp x xp fp =
     (if xp = [] \<or> fp = [] then 0
      else if x \<le> hd xp then hd fp
      else if last xp \<le> x then last fp
      else interp_walk x xp fp)"

definition straight_line_lib :: "unit spline_lib" where
  "straight_line_lib =
     \<lparr>splprep = \<lambda>xs ys s k. Some ((), []),
      splev = \<lambda>u t der. (if der = 0 then (u, 0) else if der = 1 then (1, 0) else (0, 0)),
      np_interp = lin_interp\<rparr>"

lemma segment_lengths_nonneg: "d \<in> set (segment_lengths pts) \<Longrightarrow> 0 \<le> d"
  by (auto simp: segment_lengths_def norm2_def set_zip)

lemma cumsum_from_sorted:
  "(\<And>d. d \<in> set ds \<Longrightarrow> 0 \<le> d) \<Longrightarrow> sorted (acc # cumsum_from acc ds)"
proof (induction ds arbitrary: acc)
  case Nil
  then show ?case by simp
next
  case (Cons d ds)
  have s: "sorted ((acc + d) # cumsum_from (acc + d) ds)"
    using Cons.prems by (intro Cons.IH) simp
  have "acc \<le> acc + d" using Cons.prems by simp
  with s show ?case by (auto simp: order_trans)
qed

lemma sorted_last_ge_hd: "sorted (x # xs) \<Longrightarrow> x \<le> last (x # xs)"
  by (induction xs arbitrary: x) (auto split: if_splits)

lemma linspace_length: "length (linspace a b n) = n"
  by (simp add: linspace_def)

lemma init_table:
  assumes "ReferencePath_init lib wps s k = Inr self"
  shows "self_arclengths self =
           0 # cumsum (segment_lengths
                 (map (\<lambda>u. splev lib u (self_tck self) 0) (linspace 0 1 1000))) \<and>
         self_total_length self = last (self_arclengths self) \<and>
         self_u_dense self = linspace 0 1 1000"
  using assms
  unfolding ReferencePath_init_def Let_def
  by (auto split: sum.splits option.splits if_splits prod.splits)

lemma init_degree:
  assumes "ReferencePath_init lib wps s k = Inr self"
  shows "1 \<le> snd (self_tck self) \<and> (k \<le> 1 \<longrightarrow> snd (self_tck self) = 1)"
  using assms
  unfolding ReferencePath_init_def Let_def
  by (auto split: sum.splits option.splits if_splits prod.splits)

lemma arclength_table_props:
  assumes "ReferencePath_init lib wps s k = Inr self"
  shows "sorted (self_arclengths self) \<and> self_arclengths self ! 0 = 0 \<and>
         self_total_length self = last (self_arclengths self) \<and>
         0 \<le> self_total_length self \<and> length (self_arclengths self) = 1000"
proof -
  define pts where "pts = map (\<lambda>u. splev lib u (self_tck self) 0) (linspace 0 1 1000)"
  from init_table[OF assms] have
    a: "self_arclengths self = 0 # cumsum (segment_lengths pts)"
    and t: "self_total_length self = last (self_arclengths self)"
    by (simp_all add: pts_def)
  have n: "length pts = 1000" by (simp add: pts_def linspace_length)
  have srt: "sorted (0 # cumsum (segment_lengths pts))"
    unfolding cumsum_def by (rule cumsum_from_sorted) (rule segment_lengths_nonneg)
  have len: "length (cumsum_from acc ds) = length ds" for acc ds
    by (induction ds arbitrary: acc) auto
  have "length (segment_lengths pts) = 999"
    using n by (simp add: segment_lengths_def)
  then have l: "length (self_arclengths self) = 1000"
    by (simp add: a cumsum_def len)
  from srt have "0 \<le> last (0 # cumsum (segment_lengths pts))" by (rule sorted_last_ge_hd)
  with srt l show ?thesis by (simp add: a t)
qed

lemma validate_error_kinds:
  "validate_and_prepare_waypoints wps = Inl e \<Longrightarrow>
   e = AxisError \<or> e = AllWaypointsInvalid \<or>
   e = NeedTwoDistinctWaypoints (length (remaining_waypoints wps))"
  by (auto simp: validate_cases prepare_finite_cases remaining_waypoints_def split: if_splits)

lemma init_error_cases:
  "(\<exists>e. ReferencePath_init lib wps s k = Inl e \<and> e \<noteq> SplprepFailed) \<longleftrightarrow>
   (\<exists>e. validate_and_prepare_waypoints wps = Inl e)"
proof (cases "validate_and_prepare_waypoints wps")
  case (Inl e)
  then have "e \<noteq> SplprepFailed" using validate_error_kinds[OF Inl] by auto
  with Inl show ?thesis by (simp add: ReferencePath_init_def)
next
  case (Inr w)
  then show ?thesis
    by (auto simp: ReferencePath_init_def Let_def split: option.splits prod.splits)
qed

lemma splev_der_refused:
  "snd tck < 2 \<Longrightarrow> splev_der lib u tck 2 = Inl (DerivativeOrder 2 (snd tck))"
  by (simp add: splev_der_def)

lemma splev_der_accepted:
  "2 \<le> snd tck \<Longrightarrow> splev_der lib u tck 2 = Inr (splev lib u tck 2)"
  by (simp add: splev_der_def)

lemma splev_der_low_orders:
  "1 \<le> snd tck \<Longrightarrow>
   splev_der lib u tck 0 = Inr (splev lib u tck 0) \<and> splev_der lib u tck 1 = Inr (splev lib u tck 1)"
  by (simp add: splev_der_def)

lemma curvature_refused:
  "snd (self_tck self) < 2 \<Longrightarrow>
   curvature lib self theta = Inl (DerivativeOrder 2 (snd (self_tck self)))"
  by (simp add: curvature_def Let_def splev_der_refused)

lemma curvature_returns:
  "2 \<le> snd (self_tck self) \<Longrightarrow> \<exists>c. curvature lib self theta = Inr c"
  by (simp add: curvature_def Let_def splev_der_accepted)

lemma newton_refine_refused:
  "snd tck < 2 \<Longrightarrow>
   newton_refine lib tck px py min_u tol (Suc n) u0 = Inl (DerivativeOrder 2 (snd tck))"
  by (simp add: Let_def splev_der_refused)

lemma find_closest_theta_refused:
  assumes "snd (self_tck self) < 2"
  shows "find_closest_theta lib self pos initial_guess min_theta =
           Inl (DerivativeOrder 2 (snd (self_tck self)))"
proof -
  have five: "(5::nat) = Suc 4" by simp
  show ?thesis
    unfolding find_closest_theta_def Let_def five
    by (simp only: newton_refine_refused[OF assms] sum.case)
qed

lemma invoke_object: "snd (invoke lib self m) = self"
  by (cases m) (simp_all add: invoke_def)

lemma after_calls_object: "after_calls lib self ms = self"
  unfolding after_calls_def by (induction ms) (simp_all add: invoke_object)

lemma clip_below: "theta < 0 \<Longrightarrow> np_clip theta 0 L = np_clip 0 0 L"
  by (simp add: np_clip_def)

lemma clip_above: "theta > L \<Longrightarrow> np_clip theta 0 L = np_clip L 0 L"
  by (simp add: np_clip_def)

text \<open>
  The queries clamp the arclength: at a negative \<open>theta\<close> each of them does what it does
  at 0, and beyond \<open>total_length\<close> what it does at \<open>total_length\<close>, be it a value or, for
  the curvature, the exception.
\<close>

lemma queries_at_clamped_theta:
  "(theta < 0 \<longrightarrow>
      path_call lib self theta = path_call lib self 0 \<and>
      tangent lib self theta = tangent lib self 0 \<and>
      normal lib self theta = normal lib self 0 \<and>
      curvature lib self theta = curvature lib self 0) \<and>
   (theta > self_total_length self \<longrightarrow>
      path_call lib self theta = path_call lib self (self_total_length self) \<and>
      tangent lib self theta = tangent lib self (self_total_length self) \<and>
      normal lib self theta = normal lib self (self_total_length self) \<and>
      curvature lib self theta = curvature lib self (self_total_length self))"
proof (intro conjI impI)
  assume "theta < 0"
  then have u: "theta_to_u lib self theta = theta_to_u lib self 0"
    by (simp add: theta_to_u_def clip_below)
  show "path_call lib self theta = path_call lib self 0"
    by (simp add: path_call_def u)
  show t: "tangent lib self theta = tangent lib self 0"
    by (simp add: tangent_def u)
  show "normal lib self theta = normal lib self 0"
    by (simp add: normal_def t)
  show "curvature lib self theta = curvature lib self 0"
    by (simp add: curvature_def u)
next
  assume "theta > self_total_length self"
  then have u: "theta_to_u lib self theta = theta_to_u lib self (self_total_length self)"
    by (simp add: theta_to_u_def clip_above)
  show "path_call lib self theta = path_call lib self (self_total_length self)"
    by (simp add: path_call_def u)
  show t: "tangent lib self theta = tangent lib self (self_total_length self)"
    by (simp add: tangent_def u)
  show "normal lib self theta = normal lib self (self_total_length self)"
    by (simp add: normal_def t)
  show "curvature lib self theta = curvature lib self (self_total_length self)"
    by (simp add: curvature_def u)
qed

lemma straight_line_constructed:
  "\<exists>self. ReferencePath_init straight_line_lib [(Finite 0, Finite 0), (Finite 1, Finite 0)] 0 k
           = Inr self"
proof -
  let ?w = "[(Finite 0, Finite 0), (Finite 1, Finite 0)]"
  have "length (remaining_waypoints ?w) = 2"
    by (simp add: remaining_waypoints_def finite_waypoints_def norm2_def pt_sub_def)
  then have "\<not> (\<exists>e. validate_and_prepare_waypoints ?w = Inl e)"
    by (simp add: validate_raises_iff)
  then obtain w where w: "validate_and_prepare_waypoints ?w = Inr w"
    by (cases "validate_and_prepare_waypoints ?w") auto
  show ?thesis
    by (simp add: ReferencePath_init_def w Let_def straight_line_lib_def)
qed

text \<open>
  Claim C3, as the code has it. Preparing the waypoints raises if and only if fewer than
  two points remain once the non-finite waypoints and the points within \<open>1e-10\<close> of the
  point before them in the list are removed; the constructor raises an error other than
  the failure of the spline fit in exactly that case. A list is prepared without error
  if and only if its finite waypoints hold two consecutive points further apart than
  \<open>1e-10\<close>. Two distinct finite points are not enough, as the claim has it: two points
  closer than the tolerance are rejected, and so is a chain of points each within the
  tolerance of the one before, however far apart its ends are; the evaluations after
  the theorem show both.
\<close>

theorem invalid_path_error_iff:
  "((\<exists>e. validate_and_prepare_waypoints wps = Inl e) \<longleftrightarrow>
      length (remaining_waypoints wps) < 2) \<and>
   ((\<exists>e. ReferencePath_init lib wps s k = Inl e \<and> e \<noteq> SplprepFailed) \<longleftrightarrow>
      length (remaining_waypoints wps) < 2) \<and>
   ((\<exists>i. Suc i < length (finite_waypoints wps) \<and>
         norm2 (pt_sub (finite_waypoints wps ! Suc i) (finite_waypoints wps ! i)) > 1 / 10 ^ 10) \<longleftrightarrow>
      (\<exists>w. validate_and_prepare_waypoints wps = Inr w))"
proof (intro conjI)
  show a: "(\<exists>e. validate_and_prepare_waypoints wps = Inl e) \<longleftrightarrow>
      length (remaining_waypoints wps) < 2"
    by (rule validate_raises_iff)
  show "(\<exists>e. ReferencePath_init lib wps s k = Inl e \<and> e \<noteq> SplprepFailed) \<longleftrightarrow>
      length (remaining_waypoints wps) < 2"
    by (simp only: init_error_cases a)
  have b: "(\<exists>w. validate_and_prepare_waypoints wps = Inr w) \<longleftrightarrow>
      2 \<le> length (remaining_waypoints wps)"
    using a by (cases "validate_and_prepare_waypoints wps") auto
  have "(\<exists>i. Suc i < length (finite_waypoints wps) \<and>
         norm2 (pt_sub (finite_waypoints wps ! Suc i) (finite_waypoints wps ! i)) > 1 / 10 ^ 10) \<longleftrightarrow>
      2 \<le> length (remaining_waypoints wps)"
    unfolding remaining_waypoints_def
    by (blast intro: distinct_pair_remains dest: remaining_pair)
  with b show "(\<exists>i. Suc i < length (finite_waypoints wps) \<and>
         norm2 (pt_sub (finite_waypoints wps ! Suc i) (finite_waypoints wps ! i)) > 1 / 10 ^ 10) \<longleftrightarrow>
      (\<exists>w. validate_and_prepare_waypoints wps = Inr w)"
    by simp
qed

theorem invalid_path_error_iff_witness:
  "(\<exists>e. validate_and_prepare_waypoints [(Finite 0, Finite 0), (NaN, Finite 1), (Finite 0, Finite 0)]
        = Inl e) \<and>
   (\<exists>w. validate_and_prepare_waypoints [(Finite 0, Finite 0), (PosInf, Finite 2), (Finite 1, Finite 0)]
        = Inr w)"
proof
  have "length (remaining_waypoints [(Finite 0, Finite 0), (NaN, Finite 1), (Finite 0, Finite 0)]) < 2"
    by (simp add: remaining_waypoints_def finite_waypoints_def norm2_def pt_sub_def)
  with invalid_path_error_iff
    [of "[(Finite 0, Finite 0), (NaN, Finite 1), (Finite 0, Finite 0)]"]
  show "\<exists>e. validate_and_prepare_waypoints
      [(Finite 0, Finite 0), (NaN, Finite 1), (Finite 0, Finite 0)] = Inl e"
    by blast
  let ?w = "[(Finite 0, Finite 0), (PosInf, Finite 2), (Finite 1, Finite 0)]"
  have fw: "finite_waypoints ?w = [(0, 0), (1, 0)]"
    by (simp add: finite_waypoints_def)
  have "Suc 0 < length (finite_waypoints ?w) \<and>
      norm2 (pt_sub (finite_waypoints ?w ! Suc 0) (finite_waypoints ?w ! 0)) > 1 / 10 ^ 10"
    by (simp add: fw norm2_def pt_sub_def)
  with invalid_path_error_iff [of ?w]
  show "\<exists>w. validate_and_prepare_waypoints ?w = Inr w"
    by blast
qed

theorem close_waypoints_rejected:
  "validate_and_prepare_waypoints [(Finite 0, Finite 0), (Finite (1 / 10 ^ 11), Finite 0)]
     = Inl (NeedTwoDistinctWaypoints 1) \<and>
   ReferencePath_init straight_line_lib [(Finite 0, Finite 0), (Finite (1 / 10 ^ 11), Finite 0)] 0 3
     = Inl (NeedTwoDistinctWaypoints 1) \<and>
   (0 :: real, 0 :: real) \<noteq> (1 / 10 ^ 11, 0) \<and>
   validate_and_prepare_waypoints
     [(Finite 0, Finite 0), (Finite (6 / 10 ^ 11), Finite 0), (Finite (12 / 10 ^ 11), Finite 0)]
     = Inl (NeedTwoDistinctWaypoints 1) \<and>
   norm2 (pt_sub (12 / 10 ^ 11, 0) (0, 0)) > 1 / 10 ^ 10"
proof -
  have a: "validate_and_prepare_waypoints [(Finite 0, Finite 0), (Finite (1 / 10 ^ 11), Finite 0)]
     = Inl (NeedTwoDistinctWaypoints 1)"
    by (simp add: validate_and_prepare_waypoints_def prepare_finite_waypoints_def Let_def
        segment_lengths_def select_mask_def pt_sub_def norm2_axis)
  have b: "validate_and_prepare_waypoints
     [(Finite 0, Finite 0), (Finite (6 / 10 ^ 11), Finite 0), (Finite (12 / 10 ^ 11), Finite 0)]
     = Inl (NeedTwoDistinctWaypoints 1)"
    by (simp add: validate_and_prepare_waypoints_def prepare_finite_waypoints_def Let_def
        segment_lengths_def select_mask_def pt_sub_def norm2_axis)
  have c: "norm2 (pt_sub (12 / 10 ^ 11, 0) (0, 0)) > 1 / 10 ^ 10"
    by (simp add: pt_sub_def norm2_axis)
  from a b c show ?thesis by (simp add: ReferencePath_init_def)
qed

text \<open>
  Claim C4. For every path the constructor returns, the arclength table is sorted
  (each entry at least the one before), starts with 0 and has 1000 entries, and
  \<open>total_length\<close> is its last entry and not negative. Every method of the path
  (\<open>__call__\<close>, \<open>tangent\<close>, \<open>normal\<close>, \<open>curvature\<close>, \<open>find_closest_theta\<close>, \<open>_theta_to_u\<close>),
  whether it returns or raises, leaves the table and the whole object as they were, and
  so does every sequence of method calls.
\<close>

theorem arclength_table_invariant:
  assumes "ReferencePath_init lib wps s k = Inr self"
  shows "sorted (self_arclengths self) \<and> self_arclengths self ! 0 = 0 \<and>
         self_total_length self = last (self_arclengths self) \<and>
         0 \<le> self_total_length self \<and> length (self_arclengths self) = 1000 \<and>
         self_arclengths (snd (invoke lib self m)) = self_arclengths self \<and>
         snd (invoke lib self m) = self \<and>
         self_arclengths (after_calls lib self ms) = self_arclengths self \<and>
         after_calls lib self ms = self"
  using arclength_table_props[OF assms] by (simp add: invoke_object after_calls_object)

theorem arclength_table_invariant_witness:
  "\<exists>self. ReferencePath_init
       \<lparr>splprep = \<lambda>xs ys s k. Some ((), []), splev = \<lambda>u t d. (u, 0), np_interp = \<lambda>x xp fp. x\<rparr>
       [(Finite 0, Finite 0), (Finite 1, Finite 0)] 0 3 = Inr self \<and>
     sorted (self_arclengths self) \<and> self_arclengths self ! 0 = 0 \<and>
     self_total_length self = last (self_arclengths self) \<and>
     0 \<le> self_total_length self \<and> length (self_arclengths self) = 1000 \<and>
     self_arclengths (snd (invoke
       \<lparr>splprep = \<lambda>xs ys s k. Some ((), []), splev = \<lambda>u t d. (u, 0), np_interp = \<lambda>x xp fp. x\<rparr>
       self (Curvature 2))) = self_arclengths self \<and>
     self_arclengths (after_calls
       \<lparr>splprep = \<lambda>xs ys s k. Some ((), []), splev = \<lambda>u t d. (u, 0), np_interp = \<lambda>x xp fp. x\<rparr>
       self [Call (1 / 2), FindClosestTheta (1 / 2, 0) None None, Tangent 3]) = self_arclengths self"
proof -
  let ?lib = "\<lparr>splprep = \<lambda>xs ys s k. Some ((), []), splev = \<lambda>u t d. (u, 0),
               np_interp = \<lambda>x xp fp. x\<rparr> :: unit spline_lib"
  let ?w = "[(Finite 0, Finite 0), (Finite 1, Finite 0)]"
  have "length (remaining_waypoints ?w) = 2"
    by (simp add: remaining_waypoints_def finite_waypoints_def norm2_def pt_sub_def)
  then have "\<not> (\<exists>e. validate_and_prepare_waypoints ?w = Inl e)"
    by (simp add: validate_raises_iff)
  then obtain w where w: "validate_and_prepare_waypoints ?w = Inr w"
    by (cases "validate_and_prepare_waypoints ?w") auto
  have "\<exists>self. ReferencePath_init ?lib ?w 0 3 = Inr self"
    by (simp add: ReferencePath_init_def w Let_def)
  then obtain self where i: "ReferencePath_init ?lib ?w 0 3 = Inr self" ..
  from arclength_table_invariant [OF i, of "Curvature 2"
      "[Call (1 / 2), FindClosestTheta (1 / 2, 0) None None, Tangent 3]"] i
  show ?thesis by blast
qed

text \<open>
  Claim C10 does not hold of the code. \<open>curvature\<close> asks for the second derivative of
  the spline whatever its degree, and on a spline of degree 1 \<open>splev\<close> refuses it: on the
  path that the constructor builds with \<open>k = 1\<close> through \<open>(0,0)\<close> and \<open>(1,0)\<close>, the curvature
  at the out-of-range arclength \<open>-1\<close> is the exception, where the claim has the value at 0
  and no error. The exception does not depend on the spline library or on \<open>theta\<close>
  (lemma \<open>curvature_refused\<close>). The clamping itself is as the claim says, for the
  position, the tangent and the normal on every path and for the curvature on splines of
  degree 2 and more (lemma \<open>queries_at_clamped_theta\<close>).
\<close>

theorem curvature_raises_on_linear_path:
  "\<exists>self. ReferencePath_init straight_line_lib [(Finite 0, Finite 0), (Finite 1, Finite 0)] 0 1
             = Inr self \<and>
     curvature straight_line_lib self (- 1) = Inl (DerivativeOrder 2 1) \<and>
     curvature straight_line_lib self 0 = Inl (DerivativeOrder 2 1)"
proof -
  from straight_line_constructed [of 1] obtain self where
    i: "ReferencePath_init straight_line_lib [(Finite 0, Finite 0), (Finite 1, Finite 0)] 0 1
          = Inr self" ..
  from init_degree[OF i] have d: "snd (self_tck self) = 1" by simp
  then have "snd (self_tck self) < 2" by simp
  from curvature_refused[OF this] d i show ?thesis by auto
qed

text \<open>
  Claim C6 does not hold of the code, by the same defect. The Newton refinement of
  \<open>find_closest_theta\<close> asks for the second derivative in its first pass, so on a spline
  of degree 1 the projection raises instead of returning an arclength: on the path built
  with \<open>k = 1\<close> through \<open>(0,0)\<close> and \<open>(1,0)\<close>, projecting the point of the path at arclength 0
  (which lies in \<open>[0, total_length]\<close>) is the exception. It is so for every spline
  library, point, guess and floor (lemma \<open>find_closest_theta_refused\<close>).
\<close>

theorem closest_theta_raises_on_linear_path:
  "\<exists>self. ReferencePath_init straight_line_lib [(Finite 0, Finite 0), (Finite 1, Finite 0)] 0 1
             = Inr self \<and>
     0 \<le> self_total_length self \<and>
     find_closest_theta straight_line_lib self (path_call straight_line_lib self 0) None None
       = Inl (DerivativeOrder 2 1)"
proof -
  from straight_line_constructed [of 1] obtain self where
    i: "ReferencePath_init straight_line_lib [(Finite 0, Finite 0), (Finite 1, Finite 0)] 0 1
          = Inr self" ..
  from init_degree[OF i] have d: "snd (self_tck self) = 1" by simp
  then have "snd (self_tck self) < 2" by simp
  from find_closest_theta_refused[OF this] d arclength_table_props[OF i] i
  show ?thesis by auto
qed


section \<open>The bound-constrained minimizer\<close>

text \<open>
  \<open>scipy.optimize.minimize\<close> with \<open>method='L-BFGS-B'\<close> is a parameter of the model: it
  takes the objective, the initial point, the gradient when one is given, the bounds (a
  pair of optional limits for each variable) and the options, and returns the result
  object.
\<close>

record opt_result =
  res_x :: vec
  res_success :: bool
  res_fun :: real
  res_nit :: nat

type_synonym var_bounds = "(real option \<times> real option) list"

type_synonym minimizer =
  "(vec \<Rightarrow> real) \<Rightarrow> vec \<Rightarrow> (vec \<Rightarrow> vec) option \<Rightarrow> var_bounds \<Rightarrow> (string \<times> real) list \<Rightarrow> opt_result"

definition in_bound :: "real option \<times> real option \<Rightarrow> real \<Rightarrow> bool" where
  "in_bound b v \<longleftrightarrow>
     (case fst b of None \<Rightarrow> True | Some l \<Rightarrow> l \<le> v) \<and>
     (case snd b of None \<Rightarrow> True | Some h \<Rightarrow> v \<le> h)"

definition within_bounds :: "var_bounds \<Rightarrow> vec \<Rightarrow> bool" where
  "within_bounds bnds x \<longleftrightarrow> list_all2 in_bound bnds x"

definition consistent_bounds :: "var_bounds \<Rightarrow> bool" where
  "consistent_bounds bnds \<longleftrightarrow>
     list_all (\<lambda>b. case (fst b, snd b) of (Some l, Some h) \<Rightarrow> l \<le> h | _ \<Rightarrow> True) bnds"

text \<open>
  What the planner and the path optimizer rely on: L-BFGS-B keeps every iterate inside
  the box, so the point it returns has one entry per variable, each within its bounds,
  whether or not it reports success.
\<close>

definition keeps_bounds :: "minimizer \<Rightarrow> bool" where
  "keeps_bounds minimize \<longleftrightarrow>
     (\<forall>f x0 jac bnds opts.
        length bnds = length x0 \<and> consistent_bounds bnds \<longrightarrow>
        within_bounds bnds (res_x (minimize f x0 jac bnds opts)))"

section \<open>The corridor path optimizer (reference_path.py)\<close>

text \<open>\<open>D.T @ D\<close> for a matrix \<open>D\<close> with \<open>n\<close> columns, the identity, sums, and \<open>d @ H\<close>.\<close>

definition gram :: "nat \<Rightarrow> matrix \<Rightarrow> matrix" where
  "gram n D = map (\<lambda>i. map (\<lambda>j. sum_list (map (\<lambda>row. row ! i * row ! j) D)) [0..<n]) [0..<n]"

definition eye :: "nat \<Rightarrow> matrix" where
  "eye n = map (\<lambda>i. map (\<lambda>j. if i = j then 1 else 0) [0..<n]) [0..<n]"

definition mat_add :: "matrix \<Rightarrow> matrix \<Rightarrow> matrix" where
  "mat_add A B = map2 (map2 (+)) A B"

definition vecmat :: "vec \<Rightarrow> matrix \<Rightarrow> vec" where
  "vecmat d H = map (\<lambda>j. sum_list (map2 (\<lambda>v row. v * row ! j) d H)) [0..<length d]"

text \<open>The finite-difference matrices, filled by the loops of the source.\<close>

definition build_D1 :: "nat \<Rightarrow> matrix" where
  "build_D1 N = fold (\<lambda>k D. mat_set (mat_set D k k (- 1)) k (k + 1) 1) [0..<N - 1] (zeros (N - 1) N)"

definition build_D2 :: "nat \<Rightarrow> matrix" where
  "build_D2 N =
     fold (\<lambda>k D. mat_set (mat_set (mat_set D k k 1) k (k + 1) (- 2)) k (k + 2) 1)
       [0..<N - 2] (zeros (N - 2) N)"

text \<open>The quadratic objective \<open>0.5 * d @ H @ d + f @ d\<close> and its gradient \<open>H @ d + f\<close>.\<close>

definition qp_objective :: "matrix \<Rightarrow> vec \<Rightarrow> vec \<Rightarrow> real" where
  "qp_objective H f d = dot (vecmat (map (\<lambda>v. 0.5 * v) d) H) d + dot f d"

definition qp_gradient :: "matrix \<Rightarrow> vec \<Rightarrow> vec \<Rightarrow> vec" where
  "qp_gradient H f d = vec_add (matvec H d) f"

text \<open>
  The corridor bounds of \<open>generate_optimal_reference_path\<close>: the half width less the
  margin, at least \<open>1e-6\<close>, on both sides of zero, and the two endpoints pinned to zero.
\<close>

definition offset_bounds :: "nat \<Rightarrow> real \<Rightarrow> real \<Rightarrow> var_bounds" where
  "offset_bounds N tunnel_width margin =
     (let half_w = replicate N (0.5 * tunnel_width - margin);
          half_w = map (\<lambda>h. max h (1 / 10 ^ 6)) half_w;
          lb = map uminus half_w;
          ub = half_w;
          lb = lb[0 := 0]; ub = ub[0 := 0];
          lb = lb[N - 1 := 0]; ub = ub[N - 1 := 0]
      in map2 (\<lambda>l h. (Some l, Some h)) lb ub)"


text \<open>
  A comprehension over calls that may raise: the values in order, or the first
  exception.
\<close>

fun collect_results :: "('e + 'a) list \<Rightarrow> 'e + 'a list" where
  "collect_results [] = Inr []"
| "collect_results (r # rs) =
     (case r of
        Inl e \<Rightarrow> Inl e
      | Inr v \<Rightarrow> (case collect_results rs of Inl e \<Rightarrow> Inl e | Inr vs \<Rightarrow> Inr (v # vs)))"

text \<open>
  \<open>generate_optimal_reference_path\<close> up to the offsets \<open>d_opt\<close>: the result is the
  centerline samples \<open>C\<close>, the right normals \<open>N_right\<close> and the offsets. With
  \<open>num_knots\<close> given as a negative number \<open>np.linspace\<close> raises, and with 0 \<open>np.stack\<close> raises
  on the empty list; the curvatures at the knots raise when the centerline is a spline
  of degree 1 (the fit fell back to it); with one knot \<open>np.zeros((N-2, N))\<close> raises.
\<close>

definition optimal_offsets ::
  "'c spline_lib \<Rightarrow> minimizer \<Rightarrow> (pyfloat \<times> pyfloat) list \<Rightarrow> real \<Rightarrow> real \<Rightarrow> int option \<Rightarrow>
   real \<Rightarrow> real \<Rightarrow> real \<Rightarrow> real \<Rightarrow> path_error + (point list \<times> point list \<times> vec)" where
  "optimal_offsets lib minimize tunnel_path tunnel_width margin num_knots alpha beta
     lambda_length gamma_center =
     (case ReferencePath_init lib tunnel_path 0 3 of
        Inl e \<Rightarrow> Inl e
      | Inr centerline \<Rightarrow>
          let L = self_total_length centerline;
              num_knots = (case num_knots of
                             None \<Rightarrow> max 40 (min 300 (2 * int (length tunnel_path)))
                           | Some n \<Rightarrow> n)
          in if num_knots < 0 then Inl NegativeSamples
             else if num_knots = 0 then Inl NothingToStack
             else
               let N = nat num_knots;
                   s_knots = linspace 0 L N;
                   C = map (\<lambda>theta. path_call lib centerline theta) s_knots;
                   T = map (\<lambda>theta. tangent lib centerline theta) s_knots;
                   N_right = map (\<lambda>t. (snd t, - fst t)) T
               in case collect_results (map (\<lambda>theta. curvature lib centerline theta) s_knots) of
                    Inl e \<Rightarrow> Inl e
                  | Inr kappa \<Rightarrow>
                      if num_knots = 1 then Inl NegativeDimensions
                      else
                        let ds = 0 # map2 (\<lambda>a b. b - a) s_knots (tl s_knots);
                            ds = ds[0 := (if length ds > 1 then ds ! 1 else 0)];
                            D1 = build_D1 N;
                            D2 = build_D2 N;
                            H = mat_add (mat_add (mat_scale (gram N D1) alpha)
                                           (mat_scale (gram N D2) beta))
                                  (mat_scale (eye N) gamma_center);
                            f = map (\<lambda>v. lambda_length * v) (map2 (*) kappa ds);
                            bnds = offset_bounds N tunnel_width margin;
                            res = minimize (qp_objective H f) (replicate N 0)
                                    (Some (qp_gradient H f)) bnds
                                    [(''maxiter'', 5000), (''ftol'', 1 / 10 ^ 10),
                                     (''gtol'', 1 / 10 ^ 8), (''maxls'', 50)];
                            d_opt = (if \<not> res_success res then replicate N 0 else res_x res)
                        in Inr (C, N_right, d_opt))"

lemma collect_results_length: "collect_results rs = Inr vs \<Longrightarrow> length vs = length rs"
  by (induction rs arbitrary: vs) (auto split: sum.splits)

lemma curvatures_returned:
  "2 \<le> snd (self_tck self) \<Longrightarrow>
   \<exists>ks. collect_results (map (\<lambda>theta. curvature lib self theta) ss) = Inr ks"
proof (induction ss)
  case Nil
  then show ?case by simp
next
  case (Cons a ss)
  from curvature_returns[OF Cons.prems] obtain c where "curvature lib self a = Inr c" ..
  moreover from Cons.IH[OF Cons.prems] obtain ks where
    "collect_results (map (\<lambda>theta. curvature lib self theta) ss) = Inr ks" ..
  ultimately show ?case by simp
qed

lemma curvatures_refused:
  "snd (self_tck self) < 2 \<Longrightarrow> ss \<noteq> [] \<Longrightarrow>
   collect_results (map (\<lambda>theta. curvature lib self theta) ss) =
     Inl (DerivativeOrder 2 (snd (self_tck self)))"
  by (cases ss) (simp_all add: curvature_refused)

lemma optimal_offsets_shape:
  assumes "optimal_offsets lib minimize tunnel_path tunnel_width margin num_knots alpha beta
     lambda_length gamma_center = Inr (C, N_right, d_opt)"
  shows "\<exists>N obj jac opts. 2 \<le> N \<and>
     d_opt =
       (if \<not> res_success (minimize obj (replicate N 0) jac (offset_bounds N tunnel_width margin) opts)
        then replicate N 0
        else res_x (minimize obj (replicate N 0) jac (offset_bounds N tunnel_width margin) opts))"
proof -
  from assms obtain centerline where c: "ReferencePath_init lib tunnel_path 0 3 = Inr centerline"
    by (auto simp: optimal_offsets_def split: sum.splits)
  define nk where "nk = (case num_knots of
      None \<Rightarrow> max 40 (min 300 (2 * int (length tunnel_path))) | Some n \<Rightarrow> n)"
  define K where "K = collect_results (map (\<lambda>theta. curvature lib centerline theta)
      (linspace 0 (self_total_length centerline) (nat nk)))"
  have nk: "\<not> nk < 0" "nk \<noteq> 0" "nk \<noteq> 1" and "\<exists>kappa. K = Inr kappa"
    using assms unfolding optimal_offsets_def Let_def c nk_def[symmetric] K_def
    by (auto split: if_splits sum.splits)
  then obtain kappa where k: "K = Inr kappa" by blast
  from nk have N: "2 \<le> nat nk" by linarith
  from assms show ?thesis
    unfolding optimal_offsets_def Let_def c nk_def[symmetric]
    apply (simp only: k[unfolded K_def] sum.case nk if_False sum.inject prod.inject)
    apply (elim conjE)
    apply (intro exI conjI)
     apply (rule N)
    apply (erule sym)
    done
qed

lemma offset_bounds_length: "length (offset_bounds N tunnel_width margin) = N"
  by (simp add: offset_bounds_def Let_def)

lemma offset_bounds_nth:
  assumes "k < N"
  shows "offset_bounds N tunnel_width margin ! k =
     (if k = 0 \<or> k = N - 1 then (Some 0, Some 0)
      else (Some (- max (0.5 * tunnel_width - margin) (1 / 10 ^ 6)),
            Some (max (0.5 * tunnel_width - margin) (1 / 10 ^ 6))))"
  using assms by (auto simp: offset_bounds_def Let_def nth_list_update)

lemma offset_bounds_consistent: "consistent_bounds (offset_bounds N tunnel_width margin)"
  unfolding consistent_bounds_def list_all_length
  by (auto simp: offset_bounds_length offset_bounds_nth)

lemma within_offset_bounds:
  assumes "within_bounds (offset_bounds N tunnel_width margin) d" and "2 \<le> N"
  shows "length d = N \<and>
         (\<forall>k<N. \<bar>d ! k\<bar> \<le> max (0.5 * tunnel_width - margin) (1 / 10 ^ 6)) \<and>
         d ! 0 = 0 \<and> last d = 0"
proof -
  from assms(1) have len: "length d = N"
    by (auto simp: within_bounds_def offset_bounds_length dest: list_all2_lengthD)
  have nth: "in_bound (offset_bounds N tunnel_width margin ! k) (d ! k)" if "k < N" for k
    using assms(1) that unfolding within_bounds_def
    by (auto simp: list_all2_conv_all_nth offset_bounds_length)
  have b: "\<bar>d ! k\<bar> \<le> max (0.5 * tunnel_width - margin) (1 / 10 ^ 6)" if "k < N" for k
    using nth[OF that] that by (auto simp: offset_bounds_nth in_bound_def split: if_splits)
  have z0: "d ! 0 = 0"
    using nth[of 0] assms(2) by (simp add: offset_bounds_nth in_bound_def)
  have "d ! (N - 1) = 0"
    using nth[of "N - 1"] assms(2) by (simp add: offset_bounds_nth in_bound_def)
  moreover have "last d = d ! (N - 1)"
    using len assms(2) by (cases d rule: rev_cases) auto
  ultimately show ?thesis using len b z0 by simp
qed

lemma zeros_in_box:
  assumes "2 \<le> N"
  shows "length (replicate N (0::real)) = N \<and>
         (\<forall>k<N. \<bar>replicate N (0::real) ! k\<bar> \<le> max (0.5 * tunnel_width - margin) (1 / 10 ^ 6)) \<and>
         replicate N (0::real) ! 0 = 0 \<and> last (replicate N (0::real)) = 0"
  using assms by (auto simp: max_def)

text \<open>
  Claim C5, as the code has it. With a minimizer that keeps its iterates within the
  bounds, every offset satisfies \<open>|d_k| \<le> max(halfwidth - margin, 1e-6)\<close>, hence
  \<open>|d_k| \<le> halfwidth - margin\<close> whenever that is at least \<open>1e-6\<close>; there are at least two
  offsets, the first and the last are exactly 0; and when the minimizer reports failure
  the offsets are all zero. The claim as stated fails where \<open>halfwidth - margin\<close> is
  below \<open>1e-6\<close>: the source raises the half width to \<open>1e-6\<close> there, and for a negative
  \<open>halfwidth - margin\<close> not even the all-zero fallback is within it, as the evaluation
  at \<open>tunnel_width = 0\<close> after the theorem shows.
\<close>

theorem offsets_within_corridor:
  assumes "keeps_bounds minimize"
    and "optimal_offsets lib minimize tunnel_path tunnel_width margin num_knots alpha beta
           lambda_length gamma_center = Inr (C, N_right, d_opt)"
  shows "(\<forall>k<length d_opt. \<bar>d_opt ! k\<bar> \<le> max (0.5 * tunnel_width - margin) (1 / 10 ^ 6)) \<and>
         (1 / 10 ^ 6 \<le> 0.5 * tunnel_width - margin \<longrightarrow>
            (\<forall>k<length d_opt. \<bar>d_opt ! k\<bar> \<le> 0.5 * tunnel_width - margin)) \<and>
         2 \<le> length d_opt \<and> d_opt ! 0 = 0 \<and> last d_opt = 0 \<and>
         ((\<forall>obj x0 jac bnds opts. \<not> res_success (minimize obj x0 jac bnds opts)) \<longrightarrow>
            d_opt = replicate (length d_opt) 0)"
proof -
  from optimal_offsets_shape[OF assms(2)] obtain N obj jac opts where N: "2 \<le> N"
    and d: "d_opt =
       (if \<not> res_success (minimize obj (replicate N 0) jac (offset_bounds N tunnel_width margin) opts)
        then replicate N 0
        else res_x (minimize obj (replicate N 0) jac (offset_bounds N tunnel_width margin) opts))"
    by blast
  let ?res = "minimize obj (replicate N 0) jac (offset_bounds N tunnel_width margin) opts"
  have "within_bounds (offset_bounds N tunnel_width margin) (res_x ?res)"
    using assms(1) unfolding keeps_bounds_def
    by (simp add: offset_bounds_length offset_bounds_consistent)
  note solved = within_offset_bounds[OF this N]
  note fallback = zeros_in_box[OF N, of tunnel_width margin]
  have box: "length d_opt = N \<and>
         (\<forall>k<N. \<bar>d_opt ! k\<bar> \<le> max (0.5 * tunnel_width - margin) (1 / 10 ^ 6)) \<and>
         d_opt ! 0 = 0 \<and> last d_opt = 0"
  proof (cases "res_success ?res")
    case True
    then have "d_opt = res_x ?res" using d by simp
    then show ?thesis using solved by blast
  next
    case False
    then have "d_opt = replicate N 0" using d by simp
    then show ?thesis using fallback by blast
  qed
  have fail: "(\<forall>obj x0 jac bnds opts. \<not> res_success (minimize obj x0 jac bnds opts)) \<longrightarrow>
            d_opt = replicate (length d_opt) 0"
    using d by auto
  have wide: "1 / 10 ^ 6 \<le> 0.5 * tunnel_width - margin \<longrightarrow>
            (\<forall>k<length d_opt. \<bar>d_opt ! k\<bar> \<le> 0.5 * tunnel_width - margin)"
  proof
    assume "1 / 10 ^ 6 \<le> 0.5 * tunnel_width - margin"
    then have "max (0.5 * tunnel_width - margin) (1 / 10 ^ 6) = 0.5 * tunnel_width - margin"
      by (rule max_absorb1)
    with box show "\<forall>k<length d_opt. \<bar>d_opt ! k\<bar> \<le> 0.5 * tunnel_width - margin"
      by metis
  qed
  from box N have "(\<forall>k<length d_opt. \<bar>d_opt ! k\<bar> \<le> max (0.5 * tunnel_width - margin) (1 / 10 ^ 6))"
    and "2 \<le> length d_opt" and "d_opt ! 0 = 0" and "last d_opt = 0"
    by blast+
  with wide fail show ?thesis by blast
qed

text \<open>
  Concrete parameters for evaluating the optimizer, with the straight path of
  \<open>straight_line_lib\<close>: \<open>stalled_minimizer\<close> is a minimizer that stops at the projection of
  its initial point onto the box, reporting the given success flag.
\<close>

definition project_onto_bound :: "real option \<times> real option \<Rightarrow> real \<Rightarrow> real" where
  "project_onto_bound b v =
     (let v = (case fst b of None \<Rightarrow> v | Some l \<Rightarrow> max l v)
      in case snd b of None \<Rightarrow> v | Some h \<Rightarrow> min h v)"

definition stalled_minimizer :: "bool \<Rightarrow> minimizer" where
  "stalled_minimizer flag obj x0 jac bnds opts =
     \<lparr>res_x = map2 project_onto_bound bnds x0, res_success = flag,
      res_fun = obj (map2 project_onto_bound bnds x0), res_nit = 0\<rparr>"

lemma keeps_bounds_stalled: "keeps_bounds (stalled_minimizer flag)"
proof -
  have "in_bound b (project_onto_bound b v)"
    if "case (fst b, snd b) of (Some l, Some h) \<Rightarrow> l \<le> h | _ \<Rightarrow> True" for b v
    using that by (auto simp: in_bound_def project_onto_bound_def Let_def split: option.splits)
  then show ?thesis
    unfolding keeps_bounds_def within_bounds_def consistent_bounds_def stalled_minimizer_def
    by (auto simp: list_all2_conv_all_nth list_all_length)
qed

lemma prepared_length:
  assumes "validate_and_prepare_waypoints wps = Inr w"
  shows "4 \<le> length w"
proof -
  have m: "3 \<le> length (add_middle_point d)" if "2 \<le> length d" for d
    using that by (auto simp: add_middle_point_def Let_def)
  have f: "4 \<le> length (add_offset_point d)" if "3 \<le> length d" for d
    using that by (auto simp: add_offset_point_def Let_def)
  have b: "length (break_collinearity d) = length d" for d
    by (simp add: break_collinearity_def Let_def)
  define d where "d = drop_near_duplicates (finite_waypoints wps)"
  from assms have "2 \<le> length d"
    and w: "w = break_collinearity (add_offset_point (add_middle_point d))"
    by (auto simp: validate_cases prepare_finite_cases d_def split: if_splits)
  then show ?thesis unfolding w b by (intro f m)
qed

lemma straight_line_degree:
  assumes "ReferencePath_init straight_line_lib wps s 3 = Inr self"
  shows "snd (self_tck self) = 3"
proof -
  from assms obtain w where w: "validate_and_prepare_waypoints wps = Inr w"
    by (auto simp: ReferencePath_init_def split: sum.splits)
  from prepared_length[OF w] have "min 3 (int (length w) - 1) = 3" by simp
  with assms show ?thesis
    unfolding ReferencePath_init_def Let_def w
    by (auto simp: straight_line_lib_def)
qed

lemma straight_line_offsets:
  "\<exists>C N_right.
     optimal_offsets straight_line_lib (stalled_minimizer flag)
       [(Finite 0, Finite 0), (Finite 1, Finite 0)] tunnel_width margin None 5 5 (1 / 100) (1 / 100)
     = Inr (C, N_right, replicate 40 0)"
proof -
  from straight_line_constructed [of 3] obtain self where
    c: "ReferencePath_init straight_line_lib [(Finite 0, Finite 0), (Finite 1, Finite 0)] 0 3 = Inr self" ..
  from straight_line_degree[OF c] have "2 \<le> snd (self_tck self)" by simp
  from curvatures_returned[OF this] obtain kappa where
    k: "collect_results (map (\<lambda>theta. curvature straight_line_lib self theta)
          (linspace 0 (self_total_length self) 40)) = Inr kappa" by blast
  have p: "map2 project_onto_bound (offset_bounds 40 tunnel_width margin) (replicate 40 0)
      = replicate 40 0"
  proof (rule nth_equalityI)
    show "length (map2 project_onto_bound (offset_bounds 40 tunnel_width margin) (replicate 40 0))
        = length (replicate 40 (0::real))"
      by (simp add: offset_bounds_length)
    fix k assume "k < length (map2 project_onto_bound (offset_bounds 40 tunnel_width margin)
        (replicate 40 0))"
    then have k: "k < 40" by (simp add: offset_bounds_length)
    then show "map2 project_onto_bound (offset_bounds 40 tunnel_width margin) (replicate 40 0) ! k
        = replicate 40 0 ! k"
      by (simp add: offset_bounds_length offset_bounds_nth project_onto_bound_def max_def min_def)
  qed
  show ?thesis
    unfolding optimal_offsets_def Let_def c
    by (simp add: stalled_minimizer_def p k)
qed

theorem offsets_outside_narrow_corridor:
  "\<exists>C N_right d_opt.
     optimal_offsets straight_line_lib (stalled_minimizer False)
       [(Finite 0, Finite 0), (Finite 1, Finite 0)] 0 (1 / 1000) None 5 5 (1 / 100) (1 / 100)
     = Inr (C, N_right, d_opt) \<and>
     \<not> (\<forall>k<length d_opt. \<bar>d_opt ! k\<bar> \<le> 0.5 * 0 - 1 / 1000)"
proof -
  from straight_line_offsets [of False 0 "1 / 1000"] obtain C N_right where
    "optimal_offsets straight_line_lib (stalled_minimizer False)
       [(Finite 0, Finite 0), (Finite 1, Finite 0)] 0 (1 / 1000) None 5 5 (1 / 100) (1 / 100)
     = Inr (C, N_right, replicate 40 0)" by blast
  moreover have "\<not> (\<forall>k<length (replicate 40 (0::real)). \<bar>replicate 40 (0::real) ! k\<bar> \<le> 0.5 * 0 - 1 / 1000)"
    by (auto intro: exI[where x = 0])
  ultimately show ?thesis by blast
qed

theorem offsets_within_corridor_witness:
  "\<exists>C N_right d_opt.
     optimal_offsets straight_line_lib (stalled_minimizer True)
       [(Finite 0, Finite 0), (Finite 1, Finite 0)] (1 / 10) (1 / 1000) None 5 5 (1 / 100) (1 / 100)
     = Inr (C, N_right, d_opt) \<and>
     (\<forall>k<length d_opt. \<bar>d_opt ! k\<bar> \<le> 0.5 * (1 / 10) - 1 / 1000) \<and>
     2 \<le> length d_opt \<and> d_opt ! 0 = 0 \<and> last d_opt = 0"
proof -
  from straight_line_offsets [of True "1 / 10" "1 / 1000"] obtain C N_right where
    e: "optimal_offsets straight_line_lib (stalled_minimizer True)
       [(Finite 0, Finite 0), (Finite 1, Finite 0)] (1 / 10) (1 / 1000) None 5 5 (1 / 100) (1 / 100)
     = Inr (C, N_right, replicate 40 0)" by blast
  have w: "(1::real) / 10 ^ 6 \<le> 0.5 * (1 / 10) - 1 / 1000" by simp
  from offsets_within_corridor [OF keeps_bounds_stalled e] w e show ?thesis by blast
qed


subsection \<open>From the offsets to the optimized path\<close>

text \<open>
  The intersection test shared by \<open>_has_loop\<close> and \<open>_remove_loops_from_path\<close>: the segments
  \<open>p0 p1\<close> and \<open>p2 p3\<close> cross at an interior point of both.
\<close>

definition segments_cross :: "point \<Rightarrow> point \<Rightarrow> point \<Rightarrow> point \<Rightarrow> real \<Rightarrow> bool" where
  "segments_cross p0 p1 p2 p3 tol =
     (let denom = (fst p1 - fst p0) * (snd p3 - snd p2) - (snd p1 - snd p0) * (fst p3 - fst p2)
      in if \<bar>denom\<bar> > tol then
           let t = ((fst p2 - fst p0) * (snd p3 - snd p2) - (snd p2 - snd p0) * (fst p3 - fst p2))
                     / denom;
               u = ((fst p2 - fst p0) * (snd p1 - snd p0) - (snd p2 - snd p0) * (fst p1 - fst p0))
                     / denom
           in tol < t \<and> t < 1 - tol \<and> tol < u \<and> u < 1 - tol
         else False)"

text \<open>\<open>_has_loop\<close>: some segment crosses a later segment that is not its neighbour.\<close>

definition has_loop :: "point list \<Rightarrow> real \<Rightarrow> bool" where
  "has_loop path_points tol =
     (if length path_points < 4 then False
      else list_ex (\<lambda>i. list_ex (\<lambda>j. segments_cross (path_points ! i) (path_points ! (i + 1))
                                         (path_points ! j) (path_points ! (j + 1)) tol)
                             [i + 2..<length path_points - 1])
             [0..<length path_points - 1])"

text \<open>
  \<open>_remove_loops_from_path\<close>: a point is kept when the segment to it from the last kept
  point crosses none of the kept segments before; the last point is always kept; when a
  loop remains, every \<open>step\<close>-th point is taken instead, and the last point appended when
  it differs.
\<close>

definition remove_loops_from_path :: "point list \<Rightarrow> real \<Rightarrow> point list" where
  "remove_loops_from_path path_points tol =
     (if length path_points < 4 then path_points
      else if \<not> has_loop path_points tol then path_points
      else
        let n = length path_points;
            cleaned_indices =
              fold (\<lambda>i cleaned_indices.
                      let test_indices = cleaned_indices @ [i];
                          has_intersection =
                            (if length test_indices \<ge> 4 then
                               let p2 = path_points ! (test_indices ! (length test_indices - 2));
                                   p3 = path_points ! (test_indices ! (length test_indices - 1))
                               in list_ex (\<lambda>j. segments_cross (path_points ! (test_indices ! j))
                                                  (path_points ! (test_indices ! (j + 1))) p2 p3 tol)
                                    [0..<length test_indices - 3]
                             else False)
                      in if \<not> has_intersection then cleaned_indices @ [i] else cleaned_indices)
                [1..<n] [0];
            cleaned_indices =
              (if last cleaned_indices \<noteq> n - 1 then cleaned_indices @ [n - 1]
               else cleaned_indices);
            cleaned_path = map (\<lambda>i. path_points ! i) cleaned_indices
        in if has_loop cleaned_path tol then
             let step = max 2 (n div 20);
                 cleaned_path = map (\<lambda>i. path_points ! i) (filter (\<lambda>i. i mod step = 0) [0..<n])
             in if length cleaned_path > 0 \<and> last cleaned_path \<noteq> last path_points
                then cleaned_path @ [last path_points] else cleaned_path
           else cleaned_path)"

text \<open>
  \<open>generate_optimal_reference_path\<close>: the points \<open>P = C + d_opt * N_right\<close>, cleaned of
  loops, and the path fitted through them.
\<close>

definition generate_optimal_reference_path ::
  "'c spline_lib \<Rightarrow> minimizer \<Rightarrow> (pyfloat \<times> pyfloat) list \<Rightarrow> real \<Rightarrow> real \<Rightarrow> int option \<Rightarrow>
   real \<Rightarrow> real \<Rightarrow> real \<Rightarrow> real \<Rightarrow> path_error + 'c ReferencePath" where
  "generate_optimal_reference_path lib minimize tunnel_path tunnel_width margin num_knots alpha
     beta lambda_length gamma_center =
     (case optimal_offsets lib minimize tunnel_path tunnel_width margin num_knots alpha beta
             lambda_length gamma_center of
        Inl e \<Rightarrow> Inl e
      | Inr (C, N_right, d_opt) \<Rightarrow>
          let P = map2 (\<lambda>c dn. pt_add c (pt_scale (snd dn) (fst dn))) C (zip d_opt N_right);
              P = remove_loops_from_path P (1 / 10 ^ 6)
          in ReferencePath_init lib (map (\<lambda>p. (Finite (fst p), Finite (snd p))) P) 0 3)"


section \<open>The MPCC planner (model.py)\<close>

text \<open>
  A dictionary of floats is an association list with distinct keys; \<open>dict_get\<close> is
  \<open>d.get(key, dflt)\<close>. A corridor bound is a float or a function of the progress.
\<close>

definition dict_get :: "(string \<times> real) list \<Rightarrow> string \<Rightarrow> real \<Rightarrow> real" where
  "dict_get d key dflt = (case map_of d key of None \<Rightarrow> dflt | Some v \<Rightarrow> v)"

datatype corridor_bound = Static real | Dynamic "real \<Rightarrow> real"

fun resolve_bound :: "corridor_bound \<Rightarrow> real \<Rightarrow> real" where
  "resolve_bound (Static w) s = w"
| "resolve_bound (Dynamic f) s = f s"

text \<open>\<open>unpack_x\<close>: the three slices of the decision vector, scaled back.\<close>

definition unpack_x :: "nat \<Rightarrow> real \<Rightarrow> real \<Rightarrow> vec \<Rightarrow> vec \<times> vec \<times> vec" where
  "unpack_x num_steps SCALE_JERK SCALE_VS x =
     (let jx = map (\<lambda>v. v * SCALE_JERK) (take num_steps x);
          jy = map (\<lambda>v. v * SCALE_JERK) (take num_steps (drop num_steps x));
          vs = map (\<lambda>v. v * SCALE_VS) (take num_steps (drop (2 * num_steps) x))
      in (jx, jy, vs))"

text \<open>
  The objective of \<open>generate_mpcc\<close>: jerk cost, speed tracking against the
  curvature-dependent desired speed, contour and lag error, and the one-sided corridor
  penalty. The arguments are the values the enclosing function has computed. The loop
  over \<open>ref_path.curvature\<close> raises on a path whose spline has degree 1.
\<close>

definition mpcc_objective ::
  "'c spline_lib \<Rightarrow> 'c ReferencePath \<Rightarrow> nat \<Rightarrow> real \<Rightarrow>
   real \<times> real \<times> real \<times> real \<times> real \<Rightarrow> real \<Rightarrow> real \<Rightarrow> real \<Rightarrow> real \<Rightarrow>
   real \<times> real \<times> real \<times> real \<times> real \<times> real \<times> real \<Rightarrow>
   (corridor_bound \<times> corridor_bound) option \<Rightarrow> vec \<Rightarrow> path_error + real" where
  "mpcc_objective lib ref_path num_steps dt ws desired_speed curvature_scale SCALE_JERK SCALE_VS
     state_0 corridor_bounds x =
     (let (w_jerk, w_progress, w_corridor, w_contour, w_lag) = ws;
          (px0, py0, vx0, vy0, ax0, ay0, s0) = state_0;
          A_vel_mat = build_A_vel_from_jerk num_steps dt;
          A_pos_mat = build_A_pos_from_jerk num_steps dt;
          px_free = p_free num_steps dt px0 vx0 ax0;
          py_free = p_free num_steps dt py0 vy0 ay0;
          vx_free = v_free num_steps dt vx0 ax0;
          vy_free = v_free num_steps dt vy0 ay0;
          (jx, jy, vs) = unpack_x num_steps SCALE_JERK SCALE_VS x;
          j_cost = sum_list (map2 (\<lambda>a b. a ^ 2 + b ^ 2) jx jy) * w_jerk;
          s_tr = s_traj num_steps dt s0 vs;
          vx = vec_add vx_free (matvec A_vel_mat jx);
          vy = vec_add vy_free (matvec A_vel_mat jy);
          physical_speed = map2 (\<lambda>a b. sqrt (a ^ 2 + b ^ 2)) vx vy
      in case collect_results (map (\<lambda>s. curvature lib ref_path s) s_tr) of
           Inl e \<Rightarrow> Inl e
         | Inr kappa \<Rightarrow>
             let curv = map (\<lambda>c. \<bar>c\<bar>) kappa;
                 dynamic_desired_speed = map (\<lambda>c. desired_speed / (1 + curvature_scale * c)) curv;
                 prog_cost =
                   sum_list (map2 (\<lambda>p d. (p - d) ^ 2) physical_speed dynamic_desired_speed)
                     * w_progress;
                 px = vec_add px_free (matvec A_pos_mat jx);
                 py = vec_add py_free (matvec A_pos_mat jy);
                 ref_pts = map (\<lambda>s. path_call lib ref_path s) s_tr;
                 tracking_cost =
                   fold (\<lambda>k tracking_cost.
                           let pos_error = (px ! k - fst (ref_pts ! k), py ! k - snd (ref_pts ! k));
                               tng = tangent lib ref_path (s_tr ! k);
                               cos_phi = fst tng;
                               sin_phi = snd tng;
                               e_contour = sin_phi * fst pos_error + (- cos_phi) * snd pos_error;
                               e_lag = (- cos_phi) * fst pos_error + (- sin_phi) * snd pos_error;
                               tracking_cost =
                                 tracking_cost + (w_contour * e_contour ^ 2 + w_lag * e_lag ^ 2)
                           in case corridor_bounds of
                                None \<Rightarrow> tracking_cost
                              | Some (b_left_in, b_right_in) \<Rightarrow>
                                  let w_left = resolve_bound b_left_in (s_tr ! k);
                                      w_right = resolve_bound b_right_in (s_tr ! k);
                                      violation_left = max 0 (e_contour - w_left);
                                      violation_right = max 0 (- e_contour - w_right)
                                  in tracking_cost
                                       + w_corridor * (violation_left ^ 2 + violation_right ^ 2))
                     [0..<num_steps] 0
             in Inr (j_cost + prog_cost + tracking_cost))"

text \<open>
  The acceleration reconstructed from a jerk sequence, \<open>ax_free + A_acc_mat @ jx\<close>, and the
  four inequality constraint functions the source defines on the decision vector (each
  must be non-negative). They read the first two slices of \<open>x\<close> without scaling them back.
\<close>

definition reconstructed_acc :: "nat \<Rightarrow> real \<Rightarrow> real \<Rightarrow> vec \<Rightarrow> vec" where
  "reconstructed_acc num_steps dt a0 js =
     vec_add (replicate num_steps a0) (matvec (build_A_acc num_steps dt) js)"

definition acc_constraints :: "nat \<Rightarrow> real \<Rightarrow> real \<Rightarrow> real \<Rightarrow> real \<Rightarrow> (vec \<Rightarrow> vec) list" where
  "acc_constraints num_steps dt acc_max ax0 ay0 =
     [\<lambda>x. map (\<lambda>a. acc_max - a) (reconstructed_acc num_steps dt ax0 (take num_steps x)),
      \<lambda>x. map (\<lambda>a. a + acc_max) (reconstructed_acc num_steps dt ax0 (take num_steps x)),
      \<lambda>x. map (\<lambda>a. acc_max - a) (reconstructed_acc num_steps dt ay0 (take num_steps (drop num_steps x))),
      \<lambda>x. map (\<lambda>a. a + acc_max) (reconstructed_acc num_steps dt ay0 (take num_steps (drop num_steps x)))]"

text \<open>The bounds of the decision vector: none on the jerks, a lower bound 0 on the speeds.\<close>

definition mpcc_bounds :: "nat \<Rightarrow> var_bounds" where
  "mpcc_bounds num_steps =
     replicate num_steps (None, None) @ replicate num_steps (None, None) @
     replicate num_steps (Some 0, None)"

text \<open>
  \<open>generate_mpcc\<close>. The list \<open>constraints\<close> is built as in the source, and as in the source
  it is not among the arguments of \<open>minimize\<close>: the call passes the objective, the initial
  guess, the bounds and the options only. The result is the array of controls, one row
  \<open>(jx, jy, vs)\<close> per step, and the solver's flag, cost and iteration count.

  An exception of the objective leaves \<open>minimize\<close> and \<open>generate_mpcc\<close>. \<open>minimize\<close>
  evaluates the objective at the initial guess before anything else. The objective
  raises through \<open>ref_path.curvature\<close> only, on the degree of the spline and whatever \<open>x\<close>
  is (lemma \<open>objective_raises_iff\<close> below), so once the first evaluation has returned,
  every evaluation returns, and the minimizer is handed the value of the objective.
\<close>

definition generate_mpcc ::
  "'c spline_lib \<Rightarrow> minimizer \<Rightarrow> 'c ReferencePath \<Rightarrow>
   real \<times> real \<times> real \<times> real \<times> real \<times> real \<times> real \<Rightarrow> nat \<Rightarrow> real \<Rightarrow>
   (string \<times> real) list option \<Rightarrow> (string \<times> real) list \<Rightarrow> real \<Rightarrow>
   (corridor_bound \<times> corridor_bound) option \<Rightarrow>
   path_error + (real \<times> real \<times> real) list \<times> (bool \<times> real \<times> nat)" where
  "generate_mpcc lib minimize ref_path state_0 num_steps dt weights limits desired_speed
     corridor_bounds =
     (let weights = (case weights of None \<Rightarrow> [] | Some w \<Rightarrow> w);
          w_jerk = dict_get weights ''jerk'' (15 / 10 ^ 7);
          w_tracking = dict_get weights ''tracking'' 1;
          w_progress = dict_get weights ''progress'' (1 / 10 ^ 5);
          w_corridor = dict_get weights ''wall'' 1000;
          w_contour = dict_get weights ''contour'' 1;
          w_lag = dict_get weights ''lag'' (1 / 10);
          desired_speed =
            (if weights \<noteq> [] \<and> map_of weights ''desired_speed'' \<noteq> None
             then dict_get weights ''desired_speed'' desired_speed else desired_speed);
          curvature_scale = dict_get weights ''curvature_scale'' 10;
          SCALE_JERK = 1000;
          SCALE_VS = max (1 / 10) desired_speed;
          acc_max = dict_get limits ''acc_max'' 100;
          (px0, py0, vx0, vy0, ax0, ay0, s0) = state_0;
          n_vars = 3 * num_steps;
          objective = mpcc_objective lib ref_path num_steps dt
                        (w_jerk, w_progress, w_corridor, w_contour, w_lag)
                        desired_speed curvature_scale SCALE_JERK SCALE_VS state_0 corridor_bounds;
          constraints = acc_constraints num_steps dt acc_max ax0 ay0;
          bnds = mpcc_bounds num_steps;
          x0_guess = take (2 * num_steps) (replicate n_vars 0) @
                     replicate num_steps (desired_speed / SCALE_VS)
      in case objective x0_guess of
           Inl e \<Rightarrow> Inl e
         | Inr cost0 \<Rightarrow>
             let result = minimize (\<lambda>x. case objective x of Inr v \<Rightarrow> v | Inl e \<Rightarrow> cost0)
                            x0_guess None bnds
                            [(''maxiter'', 1000), (''ftol'', 1 / 10 ^ 6), (''gtol'', 1 / 10 ^ 5),
                             (''maxfun'', 10000), (''eps'', 1 / 10 ^ 8)];
                 (jx_opt, jy_opt, vs_opt) = unpack_x num_steps SCALE_JERK SCALE_VS (res_x result);
                 controls = zip jx_opt (zip jy_opt vs_opt)
             in Inr (controls, (res_success result, res_fun result, res_nit result)))"

lemma s_traj_length: "length (s_traj num_steps dt s0 vs) = num_steps"
  by (simp add: s_traj_def matvec_def S_mat_def mat_scale_def tril_def ones_def)

lemma objective_returns:
  assumes "2 \<le> snd (self_tck ref_path)"
  shows "\<exists>v. mpcc_objective lib ref_path num_steps dt ws desired_speed curvature_scale sj sv
           state_0 corridor_bounds x = Inr v"
proof (cases "mpcc_objective lib ref_path num_steps dt ws desired_speed curvature_scale sj sv
           state_0 corridor_bounds x")
  case (Inl e)
  then obtain ss where "collect_results (map (\<lambda>s. curvature lib ref_path s) ss) = Inl e"
    unfolding mpcc_objective_def Let_def split_def by (auto split: sum.splits)
  with curvatures_returned[OF assms, of lib ss] show ?thesis by auto
next
  case (Inr v)
  then show ?thesis by blast
qed

lemma objective_refused:
  assumes "snd (self_tck ref_path) < 2" and "0 < num_steps"
  shows "mpcc_objective lib ref_path num_steps dt ws desired_speed curvature_scale sj sv
           state_0 corridor_bounds x = Inl (DerivativeOrder 2 (snd (self_tck ref_path)))"
proof -
  have "\<exists>ss. length ss = num_steps \<and>
      (case collect_results (map (\<lambda>s. curvature lib ref_path s) ss) of
         Inl e \<Rightarrow> mpcc_objective lib ref_path num_steps dt ws desired_speed curvature_scale sj sv
                    state_0 corridor_bounds x = Inl e
       | Inr kappa \<Rightarrow> True)"
    unfolding mpcc_objective_def Let_def split_def
    by (rule exI[where x = "s_traj num_steps dt (snd (snd (snd (snd (snd (snd state_0))))))
          (snd (snd (unpack_x num_steps sj sv x)))"])
      (simp add: s_traj_length split: sum.splits)
  then obtain ss where l: "length ss = num_steps"
    and c: "case collect_results (map (\<lambda>s. curvature lib ref_path s) ss) of
         Inl e \<Rightarrow> mpcc_objective lib ref_path num_steps dt ws desired_speed curvature_scale sj sv
                    state_0 corridor_bounds x = Inl e
       | Inr kappa \<Rightarrow> True" by blast
  from l assms(2) have "ss \<noteq> []" by auto
  from curvatures_refused[OF assms(1) this, of lib] c show ?thesis by simp
qed

lemma objective_raises_iff:
  "(\<exists>e. mpcc_objective lib ref_path num_steps dt ws desired_speed curvature_scale sj sv
          state_0 corridor_bounds x = Inl e) \<longleftrightarrow>
   snd (self_tck ref_path) < 2 \<and> 0 < num_steps"
proof (cases "2 \<le> snd (self_tck ref_path)")
  case True
  from objective_returns[OF True, of lib num_steps dt ws desired_speed curvature_scale sj sv
      state_0 corridor_bounds x] True
  show ?thesis by auto
next
  case False
  then have low: "snd (self_tck ref_path) < 2" by simp
  show ?thesis
  proof (cases "0 < num_steps")
    case True
    from objective_refused[OF low True] low True show ?thesis by simp
  next
    case False
    then have "num_steps = 0" by simp
    then have "\<exists>v. mpcc_objective lib ref_path num_steps dt ws desired_speed curvature_scale sj sv
          state_0 corridor_bounds x = Inr v"
      unfolding mpcc_objective_def Let_def split_def
      by (simp add: s_traj_def matvec_def S_mat_def mat_scale_def tril_def ones_def)
    with False show ?thesis by auto
  qed
qed

lemma generate_mpcc_returns:
  assumes "2 \<le> snd (self_tck ref_path)"
  shows "\<exists>controls info. generate_mpcc lib minimize ref_path state_0 num_steps dt weights limits
           desired_speed corridor_bounds = Inr (controls, info)"
proof -
  have r: "mpcc_objective lib ref_path n d ws ds cs sj sv st cb x \<noteq> Inl e"
    for n d ws ds cs sj sv st cb x e
    using objective_returns[OF assms, of lib n d ws ds cs sj sv st cb x] by auto
  show ?thesis
    unfolding generate_mpcc_def Let_def split_def
    by (auto split: sum.splits simp: r)
qed

lemma generate_mpcc_raises:
  assumes "snd (self_tck ref_path) < 2" and "0 < num_steps"
  shows "generate_mpcc lib minimize ref_path state_0 num_steps dt weights limits
           desired_speed corridor_bounds = Inl (DerivativeOrder 2 (snd (self_tck ref_path)))"
  unfolding generate_mpcc_def Let_def split_def
  by (simp add: objective_refused[OF assms])

lemma generate_mpcc_shape:
  assumes "generate_mpcc lib minimize ref_path state_0 num_steps dt weights limits desired_speed
            corridor_bounds = Inr (controls, info)"
  shows "\<exists>obj x0 opts sv. 1 / 10 \<le> sv \<and> length x0 = 3 * num_steps \<and>
     controls =
       zip (fst (unpack_x num_steps 1000 sv (res_x (minimize obj x0 None (mpcc_bounds num_steps) opts))))
         (zip (fst (snd (unpack_x num_steps 1000 sv
                  (res_x (minimize obj x0 None (mpcc_bounds num_steps) opts)))))
              (snd (snd (unpack_x num_steps 1000 sv
                  (res_x (minimize obj x0 None (mpcc_bounds num_steps) opts))))))"
  using assms
  unfolding generate_mpcc_def Let_def split_def
  apply (split sum.split_asm)
   apply (simp only: sum.distinct)
  apply (simp only: sum.inject prod.inject)
  apply (elim conjE)
  apply (intro exI conjI)
    prefer 3
    apply (erule sym)
   apply simp
  apply simp
  done

lemma mpcc_bounds_length: "length (mpcc_bounds n) = 3 * n"
  by (simp add: mpcc_bounds_def)

lemma mpcc_bounds_consistent: "consistent_bounds (mpcc_bounds n)"
  by (simp add: consistent_bounds_def mpcc_bounds_def list_all_length nth_append)

lemma mpcc_bounds_speed: "k < n \<Longrightarrow> mpcc_bounds n ! (2 * n + k) = (Some 0, None)"
  by (simp add: mpcc_bounds_def nth_append)

lemma within_mpcc_bounds:
  assumes "within_bounds (mpcc_bounds n) x"
  shows "length x = 3 * n \<and> (\<forall>k<n. 0 \<le> x ! (2 * n + k))"
proof -
  from assms have len: "length x = 3 * n"
    by (auto simp: within_bounds_def mpcc_bounds_length dest: list_all2_lengthD)
  have "0 \<le> x ! (2 * n + k)" if "k < n" for k
  proof -
    from that have "2 * n + k < length (mpcc_bounds n)" by (simp add: mpcc_bounds_length)
    with assms have "in_bound (mpcc_bounds n ! (2 * n + k)) (x ! (2 * n + k))"
      unfolding within_bounds_def by (simp add: list_all2_conv_all_nth)
    with that show ?thesis by (simp add: mpcc_bounds_speed in_bound_def)
  qed
  with len show ?thesis by blast
qed

lemma unpack_x_speeds:
  assumes "length x = 3 * n" and "k < n"
  shows "length (fst (unpack_x n sj sv x)) = n"
    and "length (fst (snd (unpack_x n sj sv x))) = n"
    and "length (snd (snd (unpack_x n sj sv x))) = n"
    and "snd (snd (unpack_x n sj sv x)) ! k = x ! (2 * n + k) * sv"
  using assms by (simp_all add: unpack_x_def Let_def)

lemma returned_speeds:
  assumes "keeps_bounds minimize"
    and "generate_mpcc lib minimize ref_path state_0 num_steps dt weights limits desired_speed
            corridor_bounds = Inr (controls, info)"
  shows "length controls = num_steps \<and> (\<forall>k<num_steps. 0 \<le> snd (snd (controls ! k)))"
proof -
  from generate_mpcc_shape [OF assms(2)]
  obtain obj x0 opts sv where sv: "1 / 10 \<le> sv" and x0: "length x0 = 3 * num_steps"
    and c: "controls =
       zip (fst (unpack_x num_steps 1000 sv (res_x (minimize obj x0 None (mpcc_bounds num_steps) opts))))
         (zip (fst (snd (unpack_x num_steps 1000 sv
                  (res_x (minimize obj x0 None (mpcc_bounds num_steps) opts)))))
              (snd (snd (unpack_x num_steps 1000 sv
                  (res_x (minimize obj x0 None (mpcc_bounds num_steps) opts))))))"
    by blast
  let ?x = "res_x (minimize obj x0 None (mpcc_bounds num_steps) opts)"
  have "within_bounds (mpcc_bounds num_steps) ?x"
    using assms(1) x0 unfolding keeps_bounds_def
    by (simp add: mpcc_bounds_length mpcc_bounds_consistent)
  from within_mpcc_bounds [OF this]
  have len: "length ?x = 3 * num_steps" and pos: "\<forall>k<num_steps. 0 \<le> ?x ! (2 * num_steps + k)"
    by blast+
  have l: "length controls = num_steps"
    unfolding c by (simp add: unpack_x_def Let_def len)
  have "0 \<le> snd (snd (controls ! k))" if k: "k < num_steps" for k
  proof -
    have "snd (snd (controls ! k)) = snd (snd (unpack_x num_steps 1000 sv ?x)) ! k"
      unfolding c using k unpack_x_speeds(1-3)[OF len k] by simp
    also have "\<dots> = ?x ! (2 * num_steps + k) * sv"
      by (rule unpack_x_speeds(4)[OF len k])
    also have "0 \<le> ?x ! (2 * num_steps + k) * sv"
      using pos k sv by (intro mult_nonneg_nonneg) auto
    finally show ?thesis .
  qed
  with l show ?thesis by blast
qed

text \<open>
  Claim C2. With a minimizer that keeps its iterates within the bounds, whenever
  \<open>generate_mpcc\<close> returns controls they have one row per step and the virtual speed (the
  third component) of every row is not negative: the decision variable is bounded below
  by 0 and scaled back by \<open>SCALE_VS = max(0.1, desired_speed)\<close>. It returns controls on
  every reference path whose spline has degree 2 or more; on a spline of degree 1 the
  objective raises and nothing is returned.
\<close>

theorem virtual_speed_nonnegative:
  assumes "keeps_bounds minimize"
  shows "(2 \<le> snd (self_tck ref_path) \<longrightarrow>
            (\<exists>controls info.
               generate_mpcc lib minimize ref_path state_0 num_steps dt weights limits
                 desired_speed corridor_bounds = Inr (controls, info))) \<and>
         (\<forall>controls info.
            generate_mpcc lib minimize ref_path state_0 num_steps dt weights limits
              desired_speed corridor_bounds = Inr (controls, info) \<longrightarrow>
            length controls = num_steps \<and>
            (\<forall>k<num_steps. 0 \<le> snd (snd (controls ! k))))"
proof (rule conjI)
  show "2 \<le> snd (self_tck ref_path) \<longrightarrow>
      (\<exists>controls info.
         generate_mpcc lib minimize ref_path state_0 num_steps dt weights limits
           desired_speed corridor_bounds = Inr (controls, info))"
    by (rule impI) (rule generate_mpcc_returns)
  show "\<forall>controls info.
      generate_mpcc lib minimize ref_path state_0 num_steps dt weights limits
        desired_speed corridor_bounds = Inr (controls, info) \<longrightarrow>
      length controls = num_steps \<and>
      (\<forall>k<num_steps. 0 \<le> snd (snd (controls ! k)))"
    by (intro allI impI) (rule returned_speeds[OF assms])
qed

theorem virtual_speed_nonnegative_witness:
  "\<exists>controls info.
     generate_mpcc straight_line_lib (stalled_minimizer True)
       \<lparr>self_waypoints = [], self_tck = ((), 3), self_u = [], self_arclengths = [0, 1],
        self_u_dense = [0, 1], self_total_length = 1\<rparr>
       (0, 0, 0, 0, 0, 0, 0) 2 (1 / 20) None [] 1 None = Inr (controls, info) \<and>
     length controls = 2 \<and> 0 \<le> snd (snd (controls ! 1))"
proof -
  let ?p = "\<lparr>self_waypoints = [], self_tck = ((), 3), self_u = [], self_arclengths = [0, 1],
        self_u_dense = [0, 1], self_total_length = 1\<rparr> :: unit ReferencePath"
  have d: "2 \<le> snd (self_tck ?p)" by simp
  note t = virtual_speed_nonnegative [OF keeps_bounds_stalled [of True], where
      lib = straight_line_lib and ref_path = ?p
      and ?state_0.0 = "(0, 0, 0, 0, 0, 0, 0)" and num_steps = 2 and dt = "1 / 20"
      and weights = None and limits = "[]" and desired_speed = 1 and corridor_bounds = None]
  from t d obtain controls info where
    g: "generate_mpcc straight_line_lib (stalled_minimizer True) ?p
       (0, 0, 0, 0, 0, 0, 0) 2 (1 / 20) None [] 1 None = Inr (controls, info)" by blast
  with t have "length controls = 2 \<and> (\<forall>k<2. 0 \<le> snd (snd (controls ! k)))" by blast
  then have "length controls = 2" and "0 \<le> snd (snd (controls ! 1))" by simp_all
  with g show ?thesis by blast
qed

text \<open>
  Claim C1 does not hold of the code: the acceleration constraints are never given to the
  minimizer, so nothing confines the reconstructed acceleration. With all weights zero
  the objective is constant and the minimizer stays at its initial guess (zero jerk);
  from an initial acceleration of 200 and \<open>acc_max = 100\<close> the acceleration
  reconstructed from the returned controls is 200 at the first step.
\<close>

theorem acceleration_limit_not_enforced:
  "\<exists>controls info.
     generate_mpcc straight_line_lib (stalled_minimizer True)
        \<lparr>self_waypoints = [], self_tck = ((), 3), self_u = [], self_arclengths = [0, 1],
         self_u_dense = [0, 1], self_total_length = 1\<rparr>
        (0, 0, 0, 0, 200, 0, 0) 1 (1 / 20)
        (Some [(''jerk'', 0), (''progress'', 0), (''contour'', 0), (''lag'', 0), (''wall'', 0)])
        [(''acc_max'', 100)] 1 None = Inr (controls, info) \<and>
     reconstructed_acc 1 (1 / 20) 200 (map fst controls) = [200] \<and>
     dict_get [(''acc_max'', 100)] ''acc_max'' 100 = 100"
proof -
  let ?p = "\<lparr>self_waypoints = [], self_tck = ((), 3), self_u = [], self_arclengths = [0, 1],
        self_u_dense = [0, 1], self_total_length = 1\<rparr> :: unit ReferencePath"
  have d: "2 \<le> snd (self_tck ?p)" by simp
  have r: "mpcc_objective straight_line_lib ?p n d ws ds cs sj sv st cb x \<noteq> Inl e"
    for n d ws ds cs sj sv st cb x e
    using objective_returns[OF d, of straight_line_lib n d ws ds cs sj sv st cb x] by auto
  show ?thesis
    unfolding generate_mpcc_def Let_def split_def
    by (auto split: sum.splits
        simp: r stalled_minimizer_def mpcc_bounds_def
          unpack_x_def project_onto_bound_def reconstructed_acc_def build_A_acc_def mat_scale_def
          tril_def ones_def matvec_def dot_def vec_add_def dict_get_def eval_nat_numeral)
qed


end
